theory Spec2Isabelle
  imports Main
begin

section \<open>Strings of the runtime\<close>

text \<open>
  A string is a list of code units. The model covers the code units 0 to 255; the
  white space that \<open>String.prototype.trim\<close> removes in that range is TAB, LF, VT, FF,
  CR, SPACE and NO-BREAK SPACE.
\<close>

definition isWhiteSpace :: "char \<Rightarrow> bool" where
  "isWhiteSpace c \<longleftrightarrow>
     c \<in> set [CHR 0x09, CHR 0x0A, CHR 0x0B, CHR 0x0C, CHR 0x0D, CHR 0x20, CHR 0xA0]"

definition trim :: "string \<Rightarrow> string" where
  "trim s = rev (dropWhile isWhiteSpace (rev (dropWhile isWhiteSpace s)))"

definition startsWith :: "string \<Rightarrow> string \<Rightarrow> bool" where
  "startsWith s p \<longleftrightarrow> take (length p) s = p"

definition endsWith :: "string \<Rightarrow> string \<Rightarrow> bool" where
  "endsWith s p \<longleftrightarrow> length p \<le> length s \<and> drop (length s - length p) s = p"

text \<open>\<open>s.includes(sub)\<close>: \<open>sub\<close> occurs in \<open>s\<close> at some position.\<close>

fun str_includes :: "string \<Rightarrow> string \<Rightarrow> bool" where
  "str_includes [] sub = (sub = [])"
| "str_includes (c # cs) sub = (startsWith (c # cs) sub \<or> str_includes cs sub)"

text \<open>\<open>s.replace(pat, rep)\<close> with a string pattern: the first occurrence only.\<close>

fun replace :: "string \<Rightarrow> string \<Rightarrow> string \<Rightarrow> string" where
  "replace [] pat rep = (if pat = [] then rep else [])"
| "replace (c # cs) pat rep =
     (if startsWith (c # cs) pat then rep @ drop (length pat) (c # cs)
      else c # replace cs pat rep)"

text \<open>\<open>s.split(sep)\<close> with a separator of one code unit; never the empty list.\<close>

fun split :: "string \<Rightarrow> char \<Rightarrow> string list" where
  "split [] sep = [[]]"
| "split (c # cs) sep =
     (if c = sep then [] # split cs sep
      else (case split cs sep of
              [] \<Rightarrow> [[c]]
            | x # xs \<Rightarrow> (c # x) # xs))"

text \<open>\<open>parts.join(sep)\<close>.\<close>

fun array_join :: "string \<Rightarrow> string list \<Rightarrow> string" where
  "array_join sep [] = []"
| "array_join sep [x] = x"
| "array_join sep (x # y # ys) = x @ sep @ array_join sep (y # ys)"

text \<open>\<open>[...new Set(xs)]\<close>: a set keeps each value once, in the order of first insertion.\<close>

definition set_add :: "'a list \<Rightarrow> 'a \<Rightarrow> 'a list" where
  "set_add seen x = (if x \<in> set seen then seen else seen @ [x])"

definition new_Set :: "'a list \<Rightarrow> 'a list" where
  "new_Set xs = foldl set_add [] xs"

section \<open>Paths (node:path, POSIX flavour)\<close>

text \<open>
  \<open>normalizeString\<close> of the path module walks the segments between separators: empty
  segments and \<open>.\<close> are dropped, \<open>..\<close> removes the segment before it, and is kept only
  where nothing is left to remove and the path is relative.
\<close>

fun resolveSegments :: "bool \<Rightarrow> string list \<Rightarrow> string list \<Rightarrow> string list" where
  "resolveSegments allowAboveRoot res [] = rev res"
| "resolveSegments allowAboveRoot res (seg # segs) =
     (if seg = [] \<or> seg = ''.'' then resolveSegments allowAboveRoot res segs
      else if seg = ''..'' then
        (case res of
           [] \<Rightarrow> resolveSegments allowAboveRoot (if allowAboveRoot then [''..''] else []) segs
         | seg0 # below \<Rightarrow>
             if seg0 = ''..''
             then resolveSegments allowAboveRoot
                    (if allowAboveRoot then ''..'' # res else res) segs
             else resolveSegments allowAboveRoot below segs)
      else resolveSegments allowAboveRoot (seg # res) segs)"

definition normalize :: "string \<Rightarrow> string" where
  "normalize path =
     (if path = [] then ''.''
      else
        let isAbsolute = (hd path = CHR ''/'');
            trailingSeparator = (last path = CHR ''/'');
            p = array_join ''/'' (resolveSegments (\<not> isAbsolute) [] (split path CHR ''/''))
        in if p = [] then (if isAbsolute then ''/'' else if trailingSeparator then ''./'' else ''.'')
           else
             let p' = (if trailingSeparator then p @ ''/'' else p)
             in if isAbsolute then ''/'' @ p' else p')"

definition join :: "string list \<Rightarrow> string" where
  "join args =
     (let parts = filter (\<lambda>arg. arg \<noteq> []) args
      in if parts = [] then ''.'' else normalize (array_join ''/'' parts))"

text \<open>
  \<open>dirname\<close> looks, from the end and down to index 1, for the first separator that
  follows a character that is not one; the result is the path up to it.
\<close>

definition dirname :: "string \<Rightarrow> string" where
  "dirname path =
     (if path = [] then ''.''
      else
        let hasRoot = (hd path = CHR ''/'');
            upto = dropWhile (\<lambda>c. c \<noteq> CHR ''/'')
                     (dropWhile (\<lambda>c. c = CHR ''/'') (rev (tl path)))
        in if upto = [] then (if hasRoot then ''/'' else ''.'')
           else if hasRoot \<and> length upto = 1 then ''//''
           else take (length upto) path)"

section \<open>The operating system\<close>

text \<open>
  Everything the library does to the outside goes through five operations: running a
  command line (Bun's \<open>$\<close>), \<open>existsSync\<close>, \<open>readFile\<close>, and the construction and the
  scan of a \<open>Bun.Glob\<close>. The library is modelled over any implementation of them, on any
  type of machine states. A command line is its argument vector: the words of the
  template, each interpolated value being one argument.
\<close>

record proc =
  exitCode :: nat
  stdout :: string

datatype error =
    ShellError nat
  | FsError string
  | GlobError string

text \<open>
  \<open>Glob_new\<close> gives the error that \<open>new Bun.Glob(pattern)\<close> throws, if it throws.
  \<open>Glob_scan s pattern cwd dot\<close> gives the paths that the scan yields, in order, and
  the error that ends it, if one does.
\<close>

record 's os =
  sh :: "'s \<Rightarrow> string list \<Rightarrow> proc \<times> 's"
  existsSync :: "'s \<Rightarrow> string \<Rightarrow> bool"
  readFile :: "'s \<Rightarrow> string \<Rightarrow> error + string"
  Glob_new :: "string \<Rightarrow> error option"
  Glob_scan :: "'s \<Rightarrow> string \<Rightarrow> string \<Rightarrow> bool \<Rightarrow> string list \<times> error option"

text \<open>\<open>await $`...`.quiet()\<close> throws when the command exits with a code other than 0.\<close>

definition quiet :: "'s os \<Rightarrow> 's \<Rightarrow> string list \<Rightarrow> (error + proc) \<times> 's" where
  "quiet os s argv =
     (case sh os s argv of
        (p, s') \<Rightarrow> (if exitCode p = 0 then Inr p else Inl (ShellError (exitCode p)), s'))"

text \<open>\<open>await $`...`.quiet().nothrow()\<close> never throws.\<close>

definition quiet_nothrow :: "'s os \<Rightarrow> 's \<Rightarrow> string list \<Rightarrow> proc \<times> 's" where
  "quiet_nothrow os s argv = sh os s argv"

section \<open>The library\<close>

subsection \<open>getDefaultBranch\<close>

definition getDefaultBranch :: "'s os \<Rightarrow> 's \<Rightarrow> string \<Rightarrow> (error + string) \<times> 's" where
  "getDefaultBranch os s repoRoot =
     (case quiet os s [''git'', ''-C'', repoRoot, ''symbolic-ref'', ''refs/remotes/origin/HEAD''] of
        (Inr result, s1) \<Rightarrow>
          (let ref = trim (stdout result)
           in (Inr (replace ref ''refs/remotes/origin/'' ''''), s1))
      | (Inl _, s1) \<Rightarrow>
          (case quiet os s1 [''git'', ''-C'', repoRoot, ''branch'', ''-r''] of
             (Inl e, s2) \<Rightarrow> (Inl e, s2)
           | (Inr branches, s2) \<Rightarrow>
               (let branchList = stdout branches
                in if str_includes branchList ''origin/main'' then (Inr ''main'', s2)
                   else if str_includes branchList ''origin/master'' then (Inr ''master'', s2)
                   else (Inr ''main'', s2))))"

subsection \<open>getGitDir, getExcludePatterns\<close>

definition getGitDir :: "'s os \<Rightarrow> 's \<Rightarrow> string \<Rightarrow> string \<times> 's" where
  "getGitDir os s repoRoot =
     (let gitPath = join [repoRoot, ''.git'']
      in case quiet os s [''git'', ''-C'', repoRoot, ''rev-parse'', ''--git-common-dir''] of
           (Inr result, s1) \<Rightarrow> (trim (stdout result), s1)
         | (Inl _, s1) \<Rightarrow> (gitPath, s1))"

text \<open>The loop over the lines of the file; \<open>patterns\<close> is the array being filled.\<close>

fun collectPatterns :: "string list \<Rightarrow> string list \<Rightarrow> string list" where
  "collectPatterns [] patterns = patterns"
| "collectPatterns (line # rest) patterns =
     (let trimmed = trim line
      in if trimmed = [] \<or> startsWith trimmed ''#''
         then collectPatterns rest patterns
         else collectPatterns rest (patterns @ [trimmed]))"

definition getExcludePatterns :: "'s os \<Rightarrow> 's \<Rightarrow> string \<Rightarrow> (error + string list) \<times> 's" where
  "getExcludePatterns os s repoRoot =
     (case getGitDir os s repoRoot of
        (gitDir, s1) \<Rightarrow>
          (let excludePath = join [gitDir, ''info'', ''exclude'']
           in if \<not> existsSync os s1 excludePath then (Inr [], s1)
              else (case readFile os s1 excludePath of
                      Inl e \<Rightarrow> (Inl e, s1)
                    | Inr content \<Rightarrow>
                        (Inr (collectPatterns (split content CHR 0x0A) []), s1))))"

subsection \<open>findExcludedFiles\<close>

text \<open>The two rewrites of \<open>pattern\<close> at the head of the loop body.\<close>

definition globPattern :: "string \<Rightarrow> string" where
  "globPattern pattern0 =
     (let pattern = (if startsWith pattern0 ''/'' then drop 1 pattern0 else pattern0)
      in if endsWith pattern ''/'' then pattern @ ''**/*'' else pattern)"

text \<open>The inner loop, over the files that the scan yields.\<close>

fun scanLoop :: "'s os \<Rightarrow> 's \<Rightarrow> string \<Rightarrow> string list \<Rightarrow> string list \<Rightarrow> string list" where
  "scanLoop os s repoRoot [] excludedFiles = excludedFiles"
| "scanLoop os s repoRoot (file # files) excludedFiles =
     (let fullPath = join [repoRoot, file]
      in if existsSync os s fullPath
         then scanLoop os s repoRoot files (excludedFiles @ [file])
         else scanLoop os s repoRoot files excludedFiles)"

text \<open>
  The outer loop, over the patterns. The \<open>try\<close> covers the construction of the glob and
  the whole scan: whatever either throws is dropped, and the files pushed before stay.
\<close>

fun patternLoop :: "'s os \<Rightarrow> 's \<Rightarrow> string \<Rightarrow> string list \<Rightarrow> string list \<Rightarrow> string list" where
  "patternLoop os s repoRoot [] excludedFiles = excludedFiles"
| "patternLoop os s repoRoot (pattern0 # patterns) excludedFiles =
     (let pattern = globPattern pattern0
      in case Glob_new os pattern of
           Some _ \<Rightarrow> patternLoop os s repoRoot patterns excludedFiles
         | None \<Rightarrow>
             (case Glob_scan os s pattern repoRoot True of
                (files, _) \<Rightarrow>
                  patternLoop os s repoRoot patterns
                    (scanLoop os s repoRoot files excludedFiles)))"

definition findExcludedFiles :: "'s os \<Rightarrow> 's \<Rightarrow> string \<Rightarrow> (error + string list) \<times> 's" where
  "findExcludedFiles os s repoRoot =
     (case getExcludePatterns os s repoRoot of
        (Inl e, s1) \<Rightarrow> (Inl e, s1)
      | (Inr patterns, s1) \<Rightarrow>
          if length patterns = 0 then (Inr [], s1)
          else (Inr (new_Set (patternLoop os s1 repoRoot patterns [])), s1))"

subsection \<open>createWorktree, removeWorktree\<close>

definition removeWorktree :: "'s os \<Rightarrow> 's \<Rightarrow> string \<Rightarrow> string \<Rightarrow> string \<Rightarrow> 's" where
  "removeWorktree os s repoRoot worktreePath branch =
     (case quiet_nothrow os s
             [''git'', ''-C'', repoRoot, ''worktree'', ''remove'', worktreePath, ''--force''] of
        (_, s1) \<Rightarrow> snd (quiet_nothrow os s1 [''git'', ''-C'', repoRoot, ''branch'', ''-D'', branch]))"

record worktree =
  path :: string
  branch :: string

definition createWorktree ::
  "'s os \<Rightarrow> 's \<Rightarrow> string \<Rightarrow> string \<Rightarrow> string \<Rightarrow> string \<Rightarrow> (error + worktree) \<times> 's" where
  "createWorktree os s repoRoot worktreeBase name baseBranch =
     (let branch = ''bytree/'' @ name;
          worktreePath = join [worktreeBase, name]
      in case quiet os s [''mkdir'', ''-p'', dirname worktreePath] of
           (Inl e, s1) \<Rightarrow> (Inl e, s1)
         | (Inr _, s1) \<Rightarrow>
             (let s3 =
                (if existsSync os s1 worktreePath
                 then (case quiet_nothrow os s1
                              [''git'', ''-C'', repoRoot, ''worktree'', ''remove'', worktreePath, ''--force''] of
                         (_, s2) \<Rightarrow>
                           snd (quiet_nothrow os s2 [''git'', ''-C'', repoRoot, ''branch'', ''-D'', branch]))
                 else s1)
              in case quiet os s3
                        [''git'', ''-C'', repoRoot, ''worktree'', ''add'', ''-b'', branch, worktreePath, baseBranch] of
                   (Inl e, s4) \<Rightarrow> (Inl e, s4)
                 | (Inr _, s4) \<Rightarrow> (Inr \<lparr>path = worktreePath, branch = branch\<rparr>, s4)))"

subsection \<open>copyExcludedFiles\<close>

text \<open>The loop over the resolved files; \<open>copied\<close> is the array being filled.\<close>

fun copyLoop ::
  "'s os \<Rightarrow> 's \<Rightarrow> string \<Rightarrow> string \<Rightarrow> string list \<Rightarrow> string list \<Rightarrow> (error + string list) \<times> 's" where
  "copyLoop os s repoRoot worktreePath [] copied = (Inr copied, s)"
| "copyLoop os s repoRoot worktreePath (file # files) copied =
     (let srcPath = join [repoRoot, file];
          destPath = join [worktreePath, file]
      in case quiet os s [''mkdir'', ''-p'', dirname destPath] of
           (Inl e, s1) \<Rightarrow> (Inl e, s1)
         | (Inr _, s1) \<Rightarrow>
             (case quiet os s1 [''cp'', ''-r'', srcPath, destPath] of
                (Inl e, s2) \<Rightarrow> (Inl e, s2)
              | (Inr _, s2) \<Rightarrow> copyLoop os s2 repoRoot worktreePath files (copied @ [file])))"

definition copyExcludedFiles ::
  "'s os \<Rightarrow> 's \<Rightarrow> string \<Rightarrow> string \<Rightarrow> (error + string list) \<times> 's" where
  "copyExcludedFiles os s repoRoot worktreePath =
     (case findExcludedFiles os s repoRoot of
        (Inl e, s1) \<Rightarrow> (Inl e, s1)
      | (Inr excludedFiles, s1) \<Rightarrow> copyLoop os s1 repoRoot worktreePath excludedFiles [])"

subsection \<open>listMyWorktrees\<close>

fun worktreeLoop :: "string list \<Rightarrow> worktree list \<Rightarrow> string \<Rightarrow> string \<Rightarrow> worktree list" where
  "worktreeLoop [] worktrees currentPath currentBranch = worktrees"
| "worktreeLoop (line # rest) worktrees currentPath currentBranch =
     (if startsWith line ''worktree ''
      then worktreeLoop rest worktrees (replace line ''worktree '' []) currentBranch
      else if startsWith line ''branch ''
      then (let newBranch = replace line ''branch refs/heads/'' []
            in if startsWith newBranch ''bytree/''
               then worktreeLoop rest
                      (worktrees @ [\<lparr>path = currentPath, branch = newBranch\<rparr>])
                      currentPath newBranch
               else worktreeLoop rest worktrees currentPath newBranch)
      else worktreeLoop rest worktrees currentPath currentBranch)"

definition listMyWorktrees :: "'s os \<Rightarrow> 's \<Rightarrow> string \<Rightarrow> (error + worktree list) \<times> 's" where
  "listMyWorktrees os s repoRoot =
     (case quiet os s [''git'', ''-C'', repoRoot, ''worktree'', ''list'', ''--porcelain''] of
        (Inl e, s1) \<Rightarrow> (Inl e, s1)
      | (Inr result, s1) \<Rightarrow>
          (Inr (worktreeLoop (split (stdout result) CHR 0x0A) [] [] []), s1))"

section \<open>The worktree listing of git\<close>

text \<open>
  The machine-readable worktree listing of git: one block of lines per worktree, first
  the line \<open>worktree <path>\<close>, then attribute lines (\<open>HEAD <hash>\<close>, \<open>bare\<close>,
  \<open>detached\<close>, \<open>locked\<close>, \<open>prunable\<close>), among them at most one line
  \<open>branch refs/heads/<name>\<close>, and an empty line at the end; every line ends with a
  line feed.
\<close>

record listed =
  wpath :: string
  before :: "string list"
  wbranch :: "string option"
  after :: "string list"

definition attribute :: "string \<Rightarrow> bool" where
  "attribute l \<longleftrightarrow>
     l \<noteq> [] \<and> CHR 0x0A \<notin> set l \<and> \<not> startsWith l ''worktree '' \<and> \<not> startsWith l ''branch ''"

definition wellListed :: "listed \<Rightarrow> bool" where
  "wellListed e \<longleftrightarrow>
     CHR 0x0A \<notin> set (wpath e) \<and> list_all attribute (before e) \<and> list_all attribute (after e)
     \<and> (case wbranch e of None \<Rightarrow> True | Some b \<Rightarrow> CHR 0x0A \<notin> set b)"

definition block :: "listed \<Rightarrow> string list" where
  "block e =
     [''worktree '' @ wpath e] @ before e
     @ (case wbranch e of None \<Rightarrow> [] | Some b \<Rightarrow> [''branch refs/heads/'' @ b])
     @ after e @ [[]]"

definition porcelain :: "listed list \<Rightarrow> string" where
  "porcelain es = concat (map (\<lambda>l. l @ [CHR 0x0A]) (concat (map block es)))"

section \<open>The results in the words of the specification\<close>

text \<open>
  Three results that the specification describes without a loop, each to be compared
  with the loop of the library that computes it.
\<close>

text \<open>
  The pattern source: the trimmed lines of the file that are neither empty nor
  comments, in file order.
\<close>

definition spec_patterns :: "string \<Rightarrow> string list" where
  "spec_patterns content =
     filter (\<lambda>l. l \<noteq> [] \<and> \<not> startsWith l ''#'') (map trim (split content CHR 0x0A))"

text \<open>
  What one pattern contributes to the resolved set: nothing when its glob cannot be
  constructed, and otherwise the files that its scan yields and that exist.
\<close>

definition spec_matches :: "'s os \<Rightarrow> 's \<Rightarrow> string \<Rightarrow> string \<Rightarrow> string list" where
  "spec_matches os s repoRoot pattern0 =
     (case Glob_new os (globPattern pattern0) of
        Some _ \<Rightarrow> []
      | None \<Rightarrow>
          filter (\<lambda>file. existsSync os s (join [repoRoot, file]))
            (fst (Glob_scan os s (globPattern pattern0) repoRoot True)))"

text \<open>The pairs of a listing whose branch carries the prefix of the tool.\<close>

definition spec_listing :: "listed list \<Rightarrow> worktree list" where
  "spec_listing es =
     concat (map (\<lambda>e. case wbranch e of
                         None \<Rightarrow> []
                       | Some b \<Rightarrow> if startsWith b ''bytree/''
                                   then [\<lparr>path = wpath e, branch = b\<rparr>] else []) es)"

text \<open>
  Replication without a failure: the two commands of each entry, run in the order of
  the list from a given state, exit with code 0; and the state that these commands
  leave.
\<close>

fun copiesSucceed :: "'s os \<Rightarrow> 's \<Rightarrow> string \<Rightarrow> string \<Rightarrow> string list \<Rightarrow> bool" where
  "copiesSucceed os s repoRoot worktreePath [] = True"
| "copiesSucceed os s repoRoot worktreePath (file # files) =
     (case sh os s [''mkdir'', ''-p'', dirname (join [worktreePath, file])] of
        (p1, s1) \<Rightarrow>
          exitCode p1 = 0
          \<and> (case sh os s1 [''cp'', ''-r'', join [repoRoot, file], join [worktreePath, file]] of
                 (p2, s2) \<Rightarrow> exitCode p2 = 0 \<and> copiesSucceed os s2 repoRoot worktreePath files))"

fun afterCopies :: "'s os \<Rightarrow> 's \<Rightarrow> string \<Rightarrow> string \<Rightarrow> string list \<Rightarrow> 's" where
  "afterCopies os s repoRoot worktreePath [] = s"
| "afterCopies os s repoRoot worktreePath (file # files) =
     (case sh os s [''mkdir'', ''-p'', dirname (join [worktreePath, file])] of
        (p1, s1) \<Rightarrow>
          (case sh os s1 [''cp'', ''-r'', join [repoRoot, file], join [worktreePath, file]] of
             (p2, s2) \<Rightarrow> afterCopies os s2 repoRoot worktreePath files))"

section \<open>Machines\<close>

subsection \<open>A reference glob\<close>

text \<open>
  The part of the glob language that the patterns of the specification use: literal
  characters, \<open>?\<close> and \<open>*\<close> inside a path segment, and the segment \<open>**\<close> for any
  number of directories. Without the \<open>dot\<close> option a wildcard does not match a leading
  dot. Every other pattern is refused by this implementation.
\<close>

fun wild :: "string \<Rightarrow> string \<Rightarrow> bool" where
  "wild [] [] = True"
| "wild [] (c # cs) = False"
| "wild (p # ps) [] = (p = CHR ''*'' \<and> wild ps [])"
| "wild (p # ps) (c # cs) =
     (if p = CHR ''*'' then wild ps (c # cs) \<or> wild (p # ps) cs
      else (p = CHR ''?'' \<or> p = c) \<and> wild ps cs)"

definition segMatch :: "bool \<Rightarrow> string \<Rightarrow> string \<Rightarrow> bool" where
  "segMatch dot p seg \<longleftrightarrow> (dot \<or> \<not> startsWith seg ''.'' \<or> startsWith p ''.'') \<and> wild p seg"

fun globSegs :: "bool \<Rightarrow> string list \<Rightarrow> string list \<Rightarrow> bool" where
  "globSegs dot [] [] = True"
| "globSegs dot [] (seg # segs) = False"
| "globSegs dot (p # ps) [] = (p = ''**'' \<and> globSegs dot ps [])"
| "globSegs dot (p # ps) (seg # segs) =
     (if p = ''**''
      then globSegs dot ps (seg # segs)
           \<or> ((dot \<or> \<not> startsWith seg ''.'') \<and> globSegs dot (p # ps) segs)
      else segMatch dot p seg \<and> globSegs dot ps segs)"

definition globMatch :: "bool \<Rightarrow> string \<Rightarrow> string \<Rightarrow> bool" where
  "globMatch dot pattern file \<longleftrightarrow> globSegs dot (split pattern CHR ''/'') (split file CHR ''/'')"

definition globNew :: "string \<Rightarrow> error option" where
  "globNew pattern =
     (if list_ex (\<lambda>c. c \<in> set [CHR ''['', CHR '']'', CHR ''{'', CHR ''}'', CHR ''!'', CHR 0x5C]) pattern
      then Some (GlobError pattern) else None)"

subsection \<open>A scripted host\<close>

text \<open>
  A machine on which every command has a scripted outcome (exit code 127 when it has
  none) and is recorded in \<open>history\<close>. \<open>present\<close> lists the paths that exist,
  \<open>texts\<close> the contents of the readable files, and \<open>walk\<close> the relative paths that a
  walk of the directory \<open>walkRoot\<close> finds, which may name files that are gone by the time
  they are looked at.
\<close>

record host =
  outcomes :: "(string list \<times> proc) list"
  present :: "string list"
  texts :: "(string \<times> string) list"
  walkRoot :: string
  walk :: "string list"
  history :: "string list list"

definition host_sh :: "host \<Rightarrow> string list \<Rightarrow> proc \<times> host" where
  "host_sh h argv =
     ((case map_of (outcomes h) argv of
         Some p \<Rightarrow> p
       | None \<Rightarrow> \<lparr>exitCode = 127, stdout = []\<rparr>),
      h\<lparr>history := history h @ [argv]\<rparr>)"

definition host_readFile :: "host \<Rightarrow> string \<Rightarrow> error + string" where
  "host_readFile h p = (case map_of (texts h) p of Some t \<Rightarrow> Inr t | None \<Rightarrow> Inl (FsError p))"

definition host_scan :: "host \<Rightarrow> string \<Rightarrow> string \<Rightarrow> bool \<Rightarrow> string list \<times> error option" where
  "host_scan h pattern cwd dot =
     (if cwd = walkRoot h then (filter (globMatch dot pattern) (walk h), None)
      else ([], Some (FsError cwd)))"

definition scripted :: "host os" where
  "scripted =
     \<lparr>sh = host_sh,
      existsSync = (\<lambda>h p. p \<in> set (present h)),
      readFile = host_readFile,
      Glob_new = globNew,
      Glob_scan = host_scan\<rparr>"

subsection \<open>A scripted host with a working directory\<close>

text \<open>
  \<open>resolve\<close> of the path module, the working directory of the process being its first
  argument: the arguments from the last absolute one on, joined and normalised. The file
  system calls of the runtime treat a path in this way, so that a relative path names a
  file below the working directory of the process. On the machine \<open>scriptedAt cwd\<close> the
  lists \<open>present\<close> and \<open>texts\<close> hold absolute paths.
\<close>

definition resolve :: "string \<Rightarrow> string list \<Rightarrow> string" where
  "resolve cwd args =
     (let used = foldl (\<lambda>sofar arg. if arg = [] then sofar
                                     else if startsWith arg ''/'' then [arg]
                                     else sofar @ [arg]) [cwd] args;
          resolvedPath = array_join ''/'' used;
          resolvedAbsolute = startsWith resolvedPath ''/'';
          p = array_join ''/'' (resolveSegments (\<not> resolvedAbsolute) [] (split resolvedPath CHR ''/''))
      in if resolvedAbsolute then ''/'' @ p else if p = [] then ''.'' else p)"

definition scriptedAt :: "string \<Rightarrow> host os" where
  "scriptedAt cwd =
     \<lparr>sh = host_sh,
      existsSync = (\<lambda>h p. resolve cwd [p] \<in> set (present h)),
      readFile = (\<lambda>h p. host_readFile h (resolve cwd [p])),
      Glob_new = globNew,
      Glob_scan = host_scan\<rparr>"

subsection \<open>A repository with linked worktrees\<close>

text \<open>
  The state that the worktree commands of git act on: the paths that exist, the linked
  worktrees with the branch each has checked out, the local branches, and the other
  revisions that can serve as a base. \<open>git worktree add -b\<close> refuses a branch that
  exists and a path that exists or is registered, and needs a base that resolves;
  \<open>git worktree remove --force\<close> needs a linked worktree at the path;
  \<open>git branch -D\<close> needs a branch that no worktree has checked out. The machine does not
  tell an empty directory from another one.
\<close>

record repo =
  paths :: "string list"
  linked :: "(string \<times> string) list"
  heads :: "string list"
  revisions :: "string list"

definition exited :: "nat \<Rightarrow> proc" where
  "exited code = \<lparr>exitCode = code, stdout = []\<rparr>"

fun repo_sh :: "repo \<Rightarrow> string list \<Rightarrow> proc \<times> repo" where
  "repo_sh r [a0, a1, a2] =
     (if [a0, a1] = [''mkdir'', ''-p'']
      then (exited 0, r\<lparr>paths := a2 # paths r\<rparr>)
      else (exited 127, r))"
| "repo_sh r [a0, a1, a2, a3, a4, a5] =
     (if [a0, a1, a3, a4] = [''git'', ''-C'', ''branch'', ''-D'']
      then (if a5 \<in> set (heads r) \<and> a5 \<notin> snd ` set (linked r)
            then (exited 0, r\<lparr>heads := removeAll a5 (heads r)\<rparr>)
            else (exited 1, r))
      else (exited 127, r))"
| "repo_sh r [a0, a1, a2, a3, a4, a5, a6] =
     (if [a0, a1, a3, a4, a6] = [''git'', ''-C'', ''worktree'', ''remove'', ''--force'']
      then (if a5 \<in> fst ` set (linked r) \<and> a5 \<in> set (paths r)
            then (exited 0, r\<lparr>paths := removeAll a5 (paths r),
                              linked := filter (\<lambda>w. fst w \<noteq> a5) (linked r)\<rparr>)
            else (exited 128, r))
      else (exited 127, r))"
| "repo_sh r [a0, a1, a2, a3, a4, a5, a6, a7, a8] =
     (if [a0, a1, a3, a4, a5] = [''git'', ''-C'', ''worktree'', ''add'', ''-b'']
      then (if a6 \<notin> set (heads r) \<and> a6 \<notin> snd ` set (linked r)
               \<and> a7 \<notin> set (paths r) \<and> a7 \<notin> fst ` set (linked r)
               \<and> (a8 \<in> set (heads r) \<or> a8 \<in> set (revisions r))
            then (exited 0, r\<lparr>paths := a7 # paths r,
                              linked := linked r @ [(a7, a6)],
                              heads := heads r @ [a6]\<rparr>)
            else (exited 128, r))
      else (exited 127, r))"
| "repo_sh r argv = (exited 127, r)"

definition repository :: "repo os" where
  "repository =
     \<lparr>sh = repo_sh,
      existsSync = (\<lambda>r p. p \<in> set (paths r)),
      readFile = (\<lambda>r p. Inl (FsError p)),
      Glob_new = globNew,
      Glob_scan = (\<lambda>r pattern cwd dot. ([], Some (FsError cwd)))\<rparr>"

subsection \<open>Example states\<close>

definition symbolicRef :: "string list" where
  "symbolicRef = [''git'', ''-C'', ''/repo'', ''symbolic-ref'', ''refs/remotes/origin/HEAD'']"

definition branchListing :: "string list" where
  "branchListing = [''git'', ''-C'', ''/repo'', ''branch'', ''-r'']"

definition revParse :: "string list" where
  "revParse = [''git'', ''-C'', ''/repo'', ''rev-parse'', ''--git-common-dir'']"

text \<open>A directory that is not a repository: both queries of a branch fail.\<close>

definition brokenHost :: host where
  "brokenHost =
     \<lparr>outcomes = [(symbolicRef, \<lparr>exitCode = 128, stdout = []\<rparr>),
                  (branchListing, \<lparr>exitCode = 128, stdout = []\<rparr>)],
      present = [], texts = [], walkRoot = ''/repo'', walk = [], history = []\<rparr>"

text \<open>A clone whose remote HEAD points to \<open>develop\<close>.\<close>

definition headHost :: host where
  "headHost =
     \<lparr>outcomes = [(symbolicRef, \<lparr>exitCode = 0, stdout = ''refs/remotes/origin/develop\<newline>''\<rparr>)],
      present = [], texts = [], walkRoot = ''/repo'', walk = [], history = []\<rparr>"

text \<open>A repository without a remote HEAD, with the remote branches \<open>main-old\<close> and \<open>master\<close>.\<close>

definition fallbackHost :: host where
  "fallbackHost =
     \<lparr>outcomes = [(symbolicRef, \<lparr>exitCode = 128, stdout = []\<rparr>),
                  (branchListing,
                   \<lparr>exitCode = 0, stdout = ''  origin/main-old\<newline>  origin/master\<newline>''\<rparr>)],
      present = [], texts = [], walkRoot = ''/repo'', walk = [], history = []\<rparr>"

text \<open>A repository with a pattern file of four lines.\<close>

definition excludeHost :: host where
  "excludeHost =
     \<lparr>outcomes = [(revParse, \<lparr>exitCode = 0, stdout = ''.git\<newline>''\<rparr>)],
      present = [''.git/info/exclude''],
      texts = [(''.git/info/exclude'',
                ''  /.claude/ \<newline># comment\<newline>\<newline>/__local__/\<newline>'')],
      walkRoot = ''/repo'', walk = [], history = []\<rparr>"

text \<open>
  A repository with files under \<open>foo/\<close> and under its sibling \<open>foobar/\<close>; the walk still
  finds \<open>foo/gone.txt\<close>, which is no longer there. The arguments are the text of
  the pattern file and the outcomes of further commands.
\<close>

definition treeHost :: "string \<Rightarrow> (string list \<times> proc) list \<Rightarrow> host" where
  "treeHost content extra =
     \<lparr>outcomes = (revParse, \<lparr>exitCode = 0, stdout = ''.git\<newline>''\<rparr>) # extra,
      present = [''.git/info/exclude'', ''/repo/foo/a.txt'', ''/repo/foo/sub/.b'',
                 ''/repo/foobar/c.txt'', ''/repo/README.md''],
      texts = [(''.git/info/exclude'', content)],
      walkRoot = ''/repo'',
      walk = [''foo/a.txt'', ''foo/sub/.b'', ''foo/gone.txt'', ''foobar/c.txt'', ''README.md''],
      history = []\<rparr>"

text \<open>
  A repository with three worktrees: the main one on \<open>main\<close>, one made by the tool, and
  one with a detached HEAD.
\<close>

definition worktreeList :: "string list" where
  "worktreeList = [''git'', ''-C'', ''/repo'', ''worktree'', ''list'', ''--porcelain'']"

definition exampleListing :: "listed list" where
  "exampleListing =
     [\<lparr>wpath = ''/repo'', before = [''HEAD 1111''], wbranch = Some ''main'', after = []\<rparr>,
      \<lparr>wpath = ''/repo-bytree/demo'', before = [''HEAD 2222''], wbranch = Some ''bytree/demo'',
       after = [''locked'']\<rparr>,
      \<lparr>wpath = ''/tmp/other'', before = [''HEAD 3333'', ''detached''], wbranch = None,
       after = []\<rparr>]"

definition listingHost :: host where
  "listingHost =
     \<lparr>outcomes =
        [(worktreeList,
          \<lparr>exitCode = 0,
           stdout = ''worktree /repo\<newline>HEAD 1111\<newline>branch refs/heads/main\<newline>\<newline>''
                    @ ''worktree /repo-bytree/demo\<newline>HEAD 2222\<newline>branch refs/heads/bytree/demo\<newline>locked\<newline>\<newline>''
                    @ ''worktree /tmp/other\<newline>HEAD 3333\<newline>detached\<newline>\<newline>''\<rparr>)],
      present = [], texts = [], walkRoot = ''/repo'', walk = [], history = []\<rparr>"

text \<open>
  The example repository with three resolved files, on a machine where the second copy
  exits with the given code.
\<close>

definition copyHost :: "nat \<Rightarrow> host" where
  "copyHost code =
     treeHost ''/foo/\<newline>README.md\<newline>''
       [([''mkdir'', ''-p'', ''/wt/foo''], \<lparr>exitCode = 0, stdout = []\<rparr>),
        ([''cp'', ''-r'', ''/repo/foo/a.txt'', ''/wt/foo/a.txt''], \<lparr>exitCode = 0, stdout = []\<rparr>),
        ([''mkdir'', ''-p'', ''/wt/foo/sub''], \<lparr>exitCode = 0, stdout = []\<rparr>),
        ([''cp'', ''-r'', ''/repo/foo/sub/.b'', ''/wt/foo/sub/.b''], \<lparr>exitCode = code, stdout = []\<rparr>),
        ([''mkdir'', ''-p'', ''/wt''], \<lparr>exitCode = 0, stdout = []\<rparr>),
        ([''cp'', ''-r'', ''/repo/README.md'', ''/wt/README.md''], \<lparr>exitCode = 0, stdout = []\<rparr>)]"

text \<open>
  A repository in which the branch \<open>bytree/x\<close> is left over and nothing exists at the
  path of its worktree; and a clean repository.
\<close>

definition staleRepo :: repo where
  "staleRepo = \<lparr>paths = [''/repo''], linked = [], heads = [''main'', ''bytree/x''], revisions = []\<rparr>"

definition cleanRepo :: repo where
  "cleanRepo = \<lparr>paths = [''/repo''], linked = [], heads = [''main''], revisions = [''origin/main'']\<rparr>"

text \<open>
  The main repository \<open>/repo\<close> with one pattern in its pattern file and a
  subdirectory; git answers the query of the metadata directory of \<open>/repo\<close> with the
  relative \<open>.git\<close>.
\<close>

definition nestedHost :: host where
  "nestedHost =
     \<lparr>outcomes = [(revParse, \<lparr>exitCode = 0, stdout = ''.git\<newline>''\<rparr>)],
      present = [''/repo'', ''/repo/.git'', ''/repo/.git/info'', ''/repo/.git/info/exclude'',
                 ''/repo/sub''],
      texts = [(''/repo/.git/info/exclude'', ''/.claude/\<newline>'')],
      walkRoot = ''/repo'', walk = [], history = []\<rparr>"

section \<open>Properties\<close>

subsection \<open>Strings and commands\<close>

lemma startsWith_iff: "startsWith s p \<longleftrightarrow> (\<exists>post. s = p @ post)"
  unfolding startsWith_def
  by (metis append_eq_conv_conj append_take_drop_id)

lemma str_includes_iff: "str_includes s sub \<longleftrightarrow> (\<exists>pre post. s = pre @ sub @ post)"
proof (induction s)
  case Nil
  then show ?case by auto
next
  case (Cons c cs)
  show ?case
  proof
    assume "str_includes (c # cs) sub"
    then consider "startsWith (c # cs) sub" | "str_includes cs sub" by auto
    then show "\<exists>pre post. c # cs = pre @ sub @ post"
    proof cases
      case 1
      then obtain post where "c # cs = sub @ post" by (auto simp: startsWith_iff)
      then have "c # cs = [] @ sub @ post" by simp
      then show ?thesis by blast
    next
      case 2
      then obtain pre post where "cs = pre @ sub @ post" using Cons.IH by auto
      then have "c # cs = (c # pre) @ sub @ post" by simp
      then show ?thesis by blast
    qed
  next
    assume "\<exists>pre post. c # cs = pre @ sub @ post"
    then obtain pre post where eq: "c # cs = pre @ sub @ post" by auto
    show "str_includes (c # cs) sub"
    proof (cases pre)
      case Nil
      with eq have "startsWith (c # cs) sub" by (auto simp: startsWith_iff)
      then show ?thesis by simp
    next
      case (Cons a pre')
      with eq have "cs = pre' @ sub @ post" by simp
      then have "str_includes cs sub" using Cons.IH by blast
      then show ?thesis by simp
    qed
  qed
qed

lemma quiet_cases:
  "sh os s argv = (p, s') \<Longrightarrow>
   quiet os s argv = (if exitCode p = 0 then Inr p else Inl (ShellError (exitCode p)), s')"
  by (simp add: quiet_def)

lemmas host_simps =
  scripted_def host_sh_def host_readFile_def host_scan_def
  symbolicRef_def branchListing_def revParse_def

subsection \<open>The default branch\<close>

text \<open>
  C3, amended. \<open>getDefaultBranch\<close> returns the target of the remote's symbolic HEAD
  (its first \<open>refs/remotes/origin/\<close> removed) when that query succeeds. When the query
  fails it runs the listing of the remote branches, and returns \<open>main\<close> or \<open>master\<close>
  when the listing succeeds. It raises exactly when the listing command fails as well:
  the call in the \<open>catch\<close> block is not guarded.
\<close>

theorem getDefaultBranch_raises_iff_listing_fails:
  assumes "sh os s [''git'', ''-C'', repoRoot, ''symbolic-ref'', ''refs/remotes/origin/HEAD''] = (p1, s1)"
    and "sh os s1 [''git'', ''-C'', repoRoot, ''branch'', ''-r''] = (p2, s2)"
  shows "getDefaultBranch os s repoRoot =
           (if exitCode p1 = 0
            then (Inr (replace (trim (stdout p1)) ''refs/remotes/origin/'' []), s1)
            else if exitCode p2 = 0
            then (Inr (if str_includes (stdout p2) ''origin/main'' then ''main''
                       else if str_includes (stdout p2) ''origin/master'' then ''master''
                       else ''main''), s2)
            else (Inl (ShellError (exitCode p2)), s2))
         \<and> ((\<exists>e. fst (getDefaultBranch os s repoRoot) = Inl e)
              \<longleftrightarrow> exitCode p1 \<noteq> 0 \<and> exitCode p2 \<noteq> 0)"
  using assms by (simp add: getDefaultBranch_def quiet_cases)

theorem getDefaultBranch_raises_iff_listing_fails_witness:
  "getDefaultBranch scripted headHost ''/repo'' =
     (Inr ''develop'', headHost\<lparr>history := [symbolicRef]\<rparr>)"
proof -
  have a: "sh scripted headHost [''git'', ''-C'', ''/repo'', ''symbolic-ref'', ''refs/remotes/origin/HEAD'']
             = (\<lparr>exitCode = 0, stdout = ''refs/remotes/origin/develop\<newline>''\<rparr>,
                headHost\<lparr>history := [symbolicRef]\<rparr>)"
    by (simp add: host_simps headHost_def)
  have b: "sh scripted (headHost\<lparr>history := [symbolicRef]\<rparr>) [''git'', ''-C'', ''/repo'', ''branch'', ''-r'']
             = (\<lparr>exitCode = 127, stdout = []\<rparr>,
                headHost\<lparr>history := [symbolicRef, [''git'', ''-C'', ''/repo'', ''branch'', ''-r'']]\<rparr>)"
    by (simp add: host_simps headHost_def)
  show ?thesis
    using getDefaultBranch_raises_iff_listing_fails [OF a b]
    by (simp add: trim_def isWhiteSpace_def startsWith_def)
qed

theorem getDefaultBranch_never_raises_counterexample:
  "fst (getDefaultBranch scripted brokenHost ''/repo'') = Inl (ShellError 128)"
  by (simp add: getDefaultBranch_def quiet_def host_simps brokenHost_def)

text \<open>
  C10. When the symbolic HEAD cannot be read and the listing of the remote branches
  succeeds, the answer is decided by the text of the listing alone: \<open>main\<close> as soon as
  \<open>origin/main\<close> occurs in it anywhere, be it inside \<open>origin/main-old\<close>; \<open>master\<close> only
  when \<open>origin/main\<close> does not occur and \<open>origin/master\<close> does; \<open>main\<close> otherwise.
\<close>

theorem getDefaultBranch_fallback_substring:
  assumes "sh os s [''git'', ''-C'', repoRoot, ''symbolic-ref'', ''refs/remotes/origin/HEAD''] = (p1, s1)"
    and "exitCode p1 \<noteq> 0"
    and "sh os s1 [''git'', ''-C'', repoRoot, ''branch'', ''-r''] = (p2, s2)"
    and "exitCode p2 = 0"
  shows "fst (getDefaultBranch os s repoRoot) =
           Inr (if (\<exists>pre post. stdout p2 = pre @ ''origin/main'' @ post) then ''main''
                else if (\<exists>pre post. stdout p2 = pre @ ''origin/master'' @ post) then ''master''
                else ''main'')
         \<and> ((\<exists>pre post. stdout p2 = pre @ ''origin/main-old'' @ post)
              \<longrightarrow> fst (getDefaultBranch os s repoRoot) = Inr ''main'')"
proof -
  have r: "fst (getDefaultBranch os s repoRoot) =
           Inr (if str_includes (stdout p2) ''origin/main'' then ''main''
                else if str_includes (stdout p2) ''origin/master'' then ''master''
                else ''main'')"
    using assms by (simp add: getDefaultBranch_def quiet_cases)
  have old: "str_includes (stdout p2) ''origin/main''"
    if "\<exists>pre post. stdout p2 = pre @ ''origin/main-old'' @ post"
  proof -
    from that obtain pre post where "stdout p2 = pre @ ''origin/main-old'' @ post" by auto
    then have "stdout p2 = pre @ ''origin/main'' @ (''-old'' @ post)" by simp
    then show ?thesis unfolding str_includes_iff by blast
  qed
  show ?thesis using r old by (simp add: str_includes_iff)
qed

theorem getDefaultBranch_fallback_substring_witness:
  "fst (getDefaultBranch scripted fallbackHost ''/repo'') = Inr ''main''"
proof -
  have a: "sh scripted fallbackHost [''git'', ''-C'', ''/repo'', ''symbolic-ref'', ''refs/remotes/origin/HEAD'']
             = (\<lparr>exitCode = 128, stdout = []\<rparr>, fallbackHost\<lparr>history := [symbolicRef]\<rparr>)"
    by (simp add: host_simps fallbackHost_def)
  have b: "exitCode \<lparr>exitCode = 128, stdout = []\<rparr> \<noteq> 0"
    by simp
  have c: "sh scripted (fallbackHost\<lparr>history := [symbolicRef]\<rparr>) [''git'', ''-C'', ''/repo'', ''branch'', ''-r'']
             = (\<lparr>exitCode = 0, stdout = ''  origin/main-old\<newline>  origin/master\<newline>''\<rparr>,
                fallbackHost\<lparr>history := [symbolicRef, branchListing]\<rparr>)"
    by (simp add: host_simps fallbackHost_def)
  have d: "exitCode \<lparr>exitCode = 0, stdout = ''  origin/main-old\<newline>  origin/master\<newline>''\<rparr> = 0"
    by simp
  have e: "\<exists>pre post. stdout \<lparr>exitCode = 0, stdout = ''  origin/main-old\<newline>  origin/master\<newline>''\<rparr>
             = pre @ ''origin/main-old'' @ post"
  proof -
    have "''  origin/main-old\<newline>  origin/master\<newline>'' = ''  '' @ ''origin/main-old'' @ ''\<newline>  origin/master\<newline>''"
      by simp
    then show ?thesis by (simp only: proc.simps) blast
  qed
  show ?thesis
    using getDefaultBranch_fallback_substring [OF a b c d] e by blast
qed

subsection \<open>The pattern source\<close>

lemma collectPatterns_filter:
  "collectPatterns ls patterns =
     patterns @ filter (\<lambda>l. l \<noteq> [] \<and> \<not> startsWith l ''#'') (map trim ls)"
  by (induction ls arbitrary: patterns) (simp_all add: Let_def)

lemma collectPatterns_spec:
  "collectPatterns (split content CHR 0x0A) [] = spec_patterns content"
  by (simp add: collectPatterns_filter spec_patterns_def)

lemma join_git_info_exclude: "join [''.git'', ''info'', ''exclude''] = ''.git/info/exclude''"
  by (simp add: join_def normalize_def Let_def)

text \<open>
  Given the directory that \<open>getGitDir\<close> answers, \<open>getExcludePatterns\<close> returns the empty
  list, and no error, when nothing exists at \<open>info/exclude\<close> under it; when the file is
  there and can be read, it returns its trimmed lines that are neither empty nor
  comments, in file order. The file of the scenario parses to the one pattern
  \<open>/.claude/\<close>.
\<close>

lemma getExcludePatterns_pattern_lines:
  assumes "getGitDir os s repoRoot = (gitDir, s1)"
  shows "getExcludePatterns os s repoRoot =
           (if \<not> existsSync os s1 (join [gitDir, ''info'', ''exclude'']) then (Inr [], s1)
            else case readFile os s1 (join [gitDir, ''info'', ''exclude'']) of
                   Inl e \<Rightarrow> (Inl e, s1)
                 | Inr content \<Rightarrow> (Inr (spec_patterns content), s1))
         \<and> spec_patterns ''/.claude/\<newline># comment\<newline>\<newline>'' = [''/.claude/'']"
proof -
  have "spec_patterns ''/.claude/\<newline># comment\<newline>\<newline>'' = [''/.claude/'']"
    by (simp add: spec_patterns_def trim_def isWhiteSpace_def startsWith_def)
  then show ?thesis
    using assms
    by (simp add: getExcludePatterns_def Let_def collectPatterns_spec split: sum.splits)
qed

lemma excludeHost_patterns:
  "fst (getExcludePatterns scripted excludeHost ''/repo'') = Inr [''/.claude/'', ''/__local__/'']"
proof -
  have g: "getGitDir scripted excludeHost ''/repo'' = (''.git'', excludeHost\<lparr>history := [revParse]\<rparr>)"
    by (simp add: getGitDir_def quiet_def host_simps excludeHost_def trim_def isWhiteSpace_def)
  have p: "spec_patterns ''  /.claude/ \<newline># comment\<newline>\<newline>/__local__/\<newline>''
             = [''/.claude/'', ''/__local__/'']"
    by (simp add: spec_patterns_def trim_def isWhiteSpace_def startsWith_def)
  show ?thesis
    using getExcludePatterns_pattern_lines [OF g] p
    by (simp add: join_git_info_exclude host_simps excludeHost_def)
qed

lemma resolve_exclude:
  "resolve ''/repo'' [''.git/info/exclude''] = ''/repo/.git/info/exclude''"
  "resolve ''/repo/sub'' [''.git/info/exclude''] = ''/repo/sub/.git/info/exclude''"
  "resolve ''/repo/sub'' [''/repo/.git/info/exclude''] = ''/repo/.git/info/exclude''"
  by (simp_all add: resolve_def Let_def startsWith_def)

lemma join_repo_exclude:
  "join [''/repo'', ''.git'', ''info'', ''exclude''] = ''/repo/.git/info/exclude''"
  by (simp add: join_def normalize_def Let_def)

lemma nestedHost_gitDir:
  "getGitDir (scriptedAt cwd) nestedHost ''/repo'' = (''.git'', nestedHost\<lparr>history := [revParse]\<rparr>)"
  by (simp add: getGitDir_def quiet_def scriptedAt_def host_sh_def revParse_def nestedHost_def
        trim_def isWhiteSpace_def)

text \<open>
  C5. The claim is that \<open>getExcludePatterns\<close> returns the pattern lines of the local
  pattern file of the repository. It does so for a process that runs in the root of the
  repository. It does not for a process that runs elsewhere: \<open>getGitDir\<close> passes on the
  answer of git, which for a main repository is the relative \<open>.git\<close>, and the file
  system calls look for \<open>.git/info/exclude\<close> below the working directory of the process
  and not below \<open>repoRoot\<close>. For the repository \<open>/repo\<close>, whose pattern file holds
  \<open>/.claude/\<close>, a process in \<open>/repo/sub\<close> gets the empty list.
\<close>

theorem getExcludePatterns_outside_root:
  "getExcludePatterns (scriptedAt ''/repo/sub'') nestedHost ''/repo''
     = (Inr [], nestedHost\<lparr>history := [revParse]\<rparr>)
   \<and> readFile (scriptedAt ''/repo/sub'') nestedHost (join [''/repo'', ''.git'', ''info'', ''exclude''])
     = Inr ''/.claude/\<newline>''
   \<and> spec_patterns ''/.claude/\<newline>'' = [''/.claude/'']
   \<and> getExcludePatterns (scriptedAt ''/repo'') nestedHost ''/repo''
     = (Inr [''/.claude/''], nestedHost\<lparr>history := [revParse]\<rparr>)"
proof (intro conjI)
  show "getExcludePatterns (scriptedAt ''/repo/sub'') nestedHost ''/repo''
          = (Inr [], nestedHost\<lparr>history := [revParse]\<rparr>)"
    using getExcludePatterns_pattern_lines [OF nestedHost_gitDir, of "''/repo/sub''"]
    by (simp add: join_git_info_exclude scriptedAt_def resolve_exclude nestedHost_def)
next
  show "readFile (scriptedAt ''/repo/sub'') nestedHost (join [''/repo'', ''.git'', ''info'', ''exclude''])
          = Inr ''/.claude/\<newline>''"
    by (simp add: join_repo_exclude scriptedAt_def resolve_exclude host_readFile_def nestedHost_def)
next
  show p: "spec_patterns ''/.claude/\<newline>'' = [''/.claude/'']"
    by (simp add: spec_patterns_def trim_def isWhiteSpace_def startsWith_def)
  show "getExcludePatterns (scriptedAt ''/repo'') nestedHost ''/repo''
          = (Inr [''/.claude/''], nestedHost\<lparr>history := [revParse]\<rparr>)"
    using getExcludePatterns_pattern_lines [OF nestedHost_gitDir, of "''/repo''"] p
    by (simp add: join_git_info_exclude scriptedAt_def resolve_exclude host_readFile_def
          nestedHost_def)
qed

subsection \<open>The exclusion resolver\<close>

lemma scanLoop_filter:
  "scanLoop os s repoRoot files excludedFiles =
     excludedFiles @ filter (\<lambda>file. existsSync os s (join [repoRoot, file])) files"
  by (induction files arbitrary: excludedFiles) (simp_all add: Let_def)

lemma patternLoop_concat:
  "patternLoop os s repoRoot patterns excludedFiles =
     excludedFiles @ concat (map (spec_matches os s repoRoot) patterns)"
proof (induction patterns arbitrary: excludedFiles)
  case Nil
  show ?case by simp
next
  case (Cons p ps)
  show ?case
  proof (cases "Glob_new os (globPattern p)")
    case None
    obtain files err where sc: "Glob_scan os s (globPattern p) repoRoot True = (files, err)"
      by (cases "Glob_scan os s (globPattern p) repoRoot True")
    show ?thesis
      by (simp add: None sc Cons.IH scanLoop_filter spec_matches_def)
  next
    case (Some e)
    then show ?thesis
      by (simp add: Cons.IH spec_matches_def)
  qed
qed

lemma foldl_set_add:
  "distinct seen \<Longrightarrow>
   distinct (foldl set_add seen xs) \<and> set (foldl set_add seen xs) = set seen \<union> set xs"
  by (induction xs arbitrary: seen) (auto simp: set_add_def)

lemma distinct_new_Set: "distinct (new_Set xs)"
  using foldl_set_add [of "[]" xs] by (simp add: new_Set_def)

lemma set_new_Set: "set (new_Set xs) = set xs"
  using foldl_set_add [of "[]" xs] by (simp add: new_Set_def)

lemma new_Set_Nil: "new_Set [] = []"
  by (simp add: new_Set_def)

lemma findExcludedFiles_resolved:
  assumes "getExcludePatterns os s repoRoot = (Inr patterns, s1)"
  shows "findExcludedFiles os s repoRoot =
           (Inr (new_Set (concat (map (spec_matches os s1 repoRoot) patterns))), s1)"
  using assms by (simp add: findExcludedFiles_def patternLoop_concat new_Set_Nil)

lemma findExcludedFiles_Inr:
  assumes "findExcludedFiles os s repoRoot = (Inr files, s1)"
  shows "\<exists>patterns. getExcludePatterns os s repoRoot = (Inr patterns, s1)"
proof (cases "getExcludePatterns os s repoRoot")
  case (Pair r s')
  with assms show ?thesis
    by (cases r) (simp_all add: findExcludedFiles_def split: if_splits)
qed

lemma spec_matches_exist:
  "file \<in> set (spec_matches os s repoRoot p) \<Longrightarrow> existsSync os s (join [repoRoot, file])"
  by (auto simp: spec_matches_def split: option.splits)

subsection \<open>The reference glob on a directory pattern\<close>

lemma split_not_Nil: "split s c \<noteq> []"
  by (induction s) (auto split: list.splits)

lemma split_append:
  "c \<notin> set a \<Longrightarrow> split (a @ c # b) c = a # split b c"
  by (induction a) (auto split: list.splits)

lemma split_Cons_more:
  "split s c = a # r \<Longrightarrow> r \<noteq> [] \<Longrightarrow> \<exists>b. s = a @ c # b"
proof (induction s arbitrary: a r)
  case Nil
  then show ?case by simp
next
  case (Cons x xs)
  show ?case
  proof (cases "x = c")
    case True
    with Cons.prems have "a = []" by simp
    with True show ?thesis by simp
  next
    case False
    obtain y ys where sp: "split xs c = y # ys"
      using split_not_Nil [of xs c] by (cases "split xs c") auto
    with False Cons.prems have a: "a = x # y" and r: "r = ys" by simp_all
    from Cons.IH [OF sp] r Cons.prems(2) obtain b where "xs = y @ c # b" by blast
    with a show ?thesis by simp
  qed
qed

lemma wild_star: "wild ''*'' s"
  by (induction s) simp_all

lemma wild_literal:
  "\<forall>c \<in> set p. c \<noteq> CHR ''*'' \<and> c \<noteq> CHR ''?'' \<Longrightarrow> wild p s \<longleftrightarrow> s = p"
proof (induction p arbitrary: s)
  case Nil
  show ?case by (cases s) simp_all
next
  case (Cons a p)
  then show ?case by (cases s) auto
qed

lemma globSegs_any_depth: "globSegs True [''**'', ''*''] segs \<longleftrightarrow> segs \<noteq> []"
proof (induction segs)
  case Nil
  show ?case by simp
next
  case (Cons seg segs)
  show ?case
  proof (cases segs)
    case Nil
    then show ?thesis by (simp add: segMatch_def wild_star)
  next
    case (Cons a list)
    with Cons.IH show ?thesis by simp
  qed
qed

lemma split_foo_pattern: "split ''foo/**/*'' CHR ''/'' = [''foo'', ''**'', ''*'']"
  by simp

lemma globMatch_foo: "globMatch True ''foo/**/*'' f \<longleftrightarrow> startsWith f ''foo/''"
proof
  assume m: "globMatch True ''foo/**/*'' f"
  obtain seg segs where sp: "split f CHR ''/'' = seg # segs"
    using split_not_Nil [of f "CHR ''/''"] by (cases "split f CHR ''/''") auto
  from m have g: "globSegs True [''foo'', ''**'', ''*''] (seg # segs)"
    by (simp only: globMatch_def split_foo_pattern sp)
  have lit: "wild ''foo'' seg \<longleftrightarrow> seg = ''foo''"
    by (rule wild_literal) simp
  from g have "segMatch True ''foo'' seg" and rest: "globSegs True [''**'', ''*''] segs"
    by simp_all
  then have "seg = ''foo''" using lit by (simp add: segMatch_def)
  moreover have "segs \<noteq> []" using rest globSegs_any_depth by blast
  ultimately obtain b where "f = ''foo'' @ CHR ''/'' # b"
    using split_Cons_more [OF sp] by blast
  then have "f = ''foo/'' @ b" by simp
  then show "startsWith f ''foo/''" unfolding startsWith_iff by blast
next
  assume "startsWith f ''foo/''"
  then obtain b where "f = ''foo/'' @ b" unfolding startsWith_iff by blast
  then have f: "f = ''foo'' @ CHR ''/'' # b" by simp
  have sp: "split f CHR ''/'' = ''foo'' # split b CHR ''/''"
    unfolding f by (rule split_append) simp
  have lit: "wild ''foo'' ''foo''"
    by simp
  have "globSegs True [''**'', ''*''] (split b CHR ''/'')"
    using globSegs_any_depth split_not_Nil by blast
  then have "globSegs True [''foo'', ''**'', ''*''] (''foo'' # split b CHR ''/'')"
    using lit by (simp add: segMatch_def)
  then show "globMatch True ''foo/**/*'' f"
    by (simp only: globMatch_def split_foo_pattern sp)
qed

lemma startsWith_foobar: "startsWith file ''foobar/'' \<Longrightarrow> \<not> startsWith file ''foo/''"
  by (auto simp: startsWith_iff)

lemma globPattern_foo: "globPattern ''/foo/'' = ''foo/**/*''"
  by (simp add: globPattern_def startsWith_def endsWith_def)

lemma spec_matches_foo:
  "walkRoot h = repoRoot \<Longrightarrow>
   spec_matches scripted h repoRoot ''/foo/'' =
     filter (\<lambda>file. join [repoRoot, file] \<in> set (present h))
       (filter (\<lambda>file. startsWith file ''foo/'') (walk h))"
  by (simp add: spec_matches_def globPattern_foo scripted_def host_scan_def globNew_def
        globMatch_foo)

text \<open>
  C2. The rewrite of a pattern removes one leading separator and then, when what is
  left ends in a separator, appends \<open>**/*\<close>. So \<open>/foo/\<close> is scanned as \<open>foo/**/*\<close>, and
  with the reference glob over a walk of the repository the result is every file of
  the walk below \<open>foo/\<close> that exists, and nothing below the sibling \<open>foobar/\<close>.
\<close>

theorem directory_pattern_resolves_below_directory:
  assumes "getExcludePatterns scripted h repoRoot = (Inr [''/foo/''], h1)"
    and "walkRoot h1 = repoRoot"
  shows "(\<forall>q. globPattern (CHR ''/'' # q) = (if endsWith q ''/'' then q @ ''**/*'' else q))
         \<and> (\<forall>p. \<not> startsWith p ''/'' \<longrightarrow>
                globPattern p = (if endsWith p ''/'' then p @ ''**/*'' else p))
         \<and> globPattern ''/foo/'' = ''foo/**/*''
         \<and> (\<exists>files. findExcludedFiles scripted h repoRoot = (Inr files, h1)
                \<and> set files = {file \<in> set (walk h1). startsWith file ''foo/''
                                  \<and> join [repoRoot, file] \<in> set (present h1)}
                \<and> (\<forall>file \<in> set files. \<not> startsWith file ''foobar/''))"
proof (intro conjI allI impI)
  fix q show "globPattern (CHR ''/'' # q) = (if endsWith q ''/'' then q @ ''**/*'' else q)"
    by (simp add: globPattern_def startsWith_def)
next
  fix p assume "\<not> startsWith p ''/''"
  then show "globPattern p = (if endsWith p ''/'' then p @ ''**/*'' else p)"
    by (simp add: globPattern_def)
next
  show "globPattern ''/foo/'' = ''foo/**/*''" by (rule globPattern_foo)
next
  have r: "findExcludedFiles scripted h repoRoot =
             (Inr (new_Set (spec_matches scripted h1 repoRoot ''/foo/'')), h1)"
    using findExcludedFiles_resolved [OF assms(1)] by simp
  have s: "set (new_Set (spec_matches scripted h1 repoRoot ''/foo/'')) =
             {file \<in> set (walk h1). startsWith file ''foo/''
                \<and> join [repoRoot, file] \<in> set (present h1)}"
    by (auto simp: set_new_Set spec_matches_foo [OF assms(2)])
  have t: "\<forall>file \<in> set (new_Set (spec_matches scripted h1 repoRoot ''/foo/'')).
             \<not> startsWith file ''foobar/''"
    unfolding s using startsWith_foobar by blast
  show "\<exists>files. findExcludedFiles scripted h repoRoot = (Inr files, h1)
          \<and> set files = {file \<in> set (walk h1). startsWith file ''foo/''
                            \<and> join [repoRoot, file] \<in> set (present h1)}
          \<and> (\<forall>file \<in> set files. \<not> startsWith file ''foobar/'')"
    using r s t by blast
qed

subsection \<open>The resolver on the example repository\<close>

lemma join_repo_file:
  "join [''/repo'', ''foo/a.txt''] = ''/repo/foo/a.txt''"
  "join [''/repo'', ''foo/sub/.b''] = ''/repo/foo/sub/.b''"
  "join [''/repo'', ''foo/gone.txt''] = ''/repo/foo/gone.txt''"
  "join [''/repo'', ''foobar/c.txt''] = ''/repo/foobar/c.txt''"
  "join [''/repo'', ''README.md''] = ''/repo/README.md''"
  by (simp_all add: join_def normalize_def Let_def)

lemma treeHost_patterns:
  "getExcludePatterns scripted (treeHost content extra) ''/repo'' =
     (Inr (spec_patterns content), (treeHost content extra)\<lparr>history := [revParse]\<rparr>)"
proof -
  have g: "getGitDir scripted (treeHost content extra) ''/repo'' =
             (''.git'', (treeHost content extra)\<lparr>history := [revParse]\<rparr>)"
    by (simp add: getGitDir_def quiet_def host_simps treeHost_def trim_def isWhiteSpace_def)
  have e: "existsSync scripted ((treeHost content extra)\<lparr>history := [revParse]\<rparr>) ''.git/info/exclude''"
    by (simp add: host_simps treeHost_def)
  have r: "readFile scripted ((treeHost content extra)\<lparr>history := [revParse]\<rparr>) ''.git/info/exclude''
             = Inr content"
    by (simp add: host_simps treeHost_def)
  show ?thesis
    by (simp add: getExcludePatterns_def g join_git_info_exclude collectPatterns_spec e r)
qed

lemma treeHost_walk:
  "walkRoot ((treeHost content extra)\<lparr>history := hist\<rparr>) = ''/repo''"
  "walk ((treeHost content extra)\<lparr>history := hist\<rparr>) =
     [''foo/a.txt'', ''foo/sub/.b'', ''foo/gone.txt'', ''foobar/c.txt'', ''README.md'']"
  "present ((treeHost content extra)\<lparr>history := hist\<rparr>) =
     [''.git/info/exclude'', ''/repo/foo/a.txt'', ''/repo/foo/sub/.b'',
      ''/repo/foobar/c.txt'', ''/repo/README.md'']"
  by (simp_all add: treeHost_def)

lemma spec_patterns_foo: "spec_patterns ''/foo/\<newline>'' = [''/foo/'']"
  by (simp add: spec_patterns_def trim_def isWhiteSpace_def startsWith_def)

lemma treeHost_foo_files:
  "{f \<in> set (walk ((treeHost content extra)\<lparr>history := hist\<rparr>)).
      startsWith f ''foo/''
      \<and> join [''/repo'', f] \<in> set (present ((treeHost content extra)\<lparr>history := hist\<rparr>))}
   = {''foo/a.txt'', ''foo/sub/.b''}"
proof -
  have "filter (\<lambda>f. startsWith f ''foo/''
                  \<and> join [''/repo'', f] \<in> set [''.git/info/exclude'', ''/repo/foo/a.txt'',
                        ''/repo/foo/sub/.b'', ''/repo/foobar/c.txt'', ''/repo/README.md''])
          [''foo/a.txt'', ''foo/sub/.b'', ''foo/gone.txt'', ''foobar/c.txt'', ''README.md'']
        = [''foo/a.txt'', ''foo/sub/.b'']"
    by (simp add: join_repo_file startsWith_def)
  then have "set (filter (\<lambda>f. startsWith f ''foo/''
                  \<and> join [''/repo'', f] \<in> set [''.git/info/exclude'', ''/repo/foo/a.txt'',
                        ''/repo/foo/sub/.b'', ''/repo/foobar/c.txt'', ''/repo/README.md''])
          [''foo/a.txt'', ''foo/sub/.b'', ''foo/gone.txt'', ''foobar/c.txt'', ''README.md''])
        = {''foo/a.txt'', ''foo/sub/.b''}"
    by simp
  then show ?thesis
    unfolding treeHost_walk set_filter .
qed

theorem directory_pattern_resolves_below_directory_witness:
  "\<exists>files. findExcludedFiles scripted (treeHost ''/foo/\<newline>'' []) ''/repo''
             = (Inr files, (treeHost ''/foo/\<newline>'' [])\<lparr>history := [revParse]\<rparr>)
           \<and> set files = {''foo/a.txt'', ''foo/sub/.b''}
           \<and> ''foobar/c.txt'' \<notin> set files"
proof -
  have a: "getExcludePatterns scripted (treeHost ''/foo/\<newline>'' []) ''/repo'' =
             (Inr [''/foo/''], (treeHost ''/foo/\<newline>'' [])\<lparr>history := [revParse]\<rparr>)"
    by (simp only: treeHost_patterns spec_patterns_foo)
  have b: "walkRoot ((treeHost ''/foo/\<newline>'' [])\<lparr>history := [revParse]\<rparr>) = ''/repo''"
    by (rule treeHost_walk)
  note t = directory_pattern_resolves_below_directory [OF a b]
  from t [THEN conjunct2, THEN conjunct2, THEN conjunct2]
  obtain files where
    f1: "findExcludedFiles scripted (treeHost ''/foo/\<newline>'' []) ''/repo''
           = (Inr files, (treeHost ''/foo/\<newline>'' [])\<lparr>history := [revParse]\<rparr>)" and
    f2: "set files = {f \<in> set (walk ((treeHost ''/foo/\<newline>'' [])\<lparr>history := [revParse]\<rparr>)).
            startsWith f ''foo/''
            \<and> join [''/repo'', f]
                \<in> set (present ((treeHost ''/foo/\<newline>'' [])\<lparr>history := [revParse]\<rparr>))}"
    by (elim exE conjE)
  have f3: "set files = {''foo/a.txt'', ''foo/sub/.b''}"
    using f2 unfolding treeHost_foo_files .
  have f4: "''foobar/c.txt'' \<notin> set files"
    unfolding f3 by simp
  show ?thesis
    using f1 f3 f4 by (intro exI [of _ files] conjI)
qed

lemma treeHost_matches_foo:
  "spec_matches scripted ((treeHost content extra)\<lparr>history := hist\<rparr>) ''/repo'' ''/foo/''
     = [''foo/a.txt'', ''foo/sub/.b'']"
proof -
  have "spec_matches scripted ((treeHost content extra)\<lparr>history := hist\<rparr>) ''/repo'' ''/foo/''
          = filter (\<lambda>f. join [''/repo'', f]
                           \<in> set (present ((treeHost content extra)\<lparr>history := hist\<rparr>)))
              (filter (\<lambda>f. startsWith f ''foo/'')
                 (walk ((treeHost content extra)\<lparr>history := hist\<rparr>)))"
    by (rule spec_matches_foo) (rule treeHost_walk)
  then show ?thesis
    unfolding treeHost_walk by (simp add: join_repo_file startsWith_def)
qed

lemma treeHost_matches_bracket:
  "Glob_new scripted (globPattern ''['') \<noteq> None"
  by (simp add: scripted_def globNew_def globPattern_def startsWith_def endsWith_def)

lemma treeHost_matches_txt:
  "spec_matches scripted ((treeHost content extra)\<lparr>history := hist\<rparr>) ''/repo'' ''foo/*.txt''
     = [''foo/a.txt'']"
proof -
  have p: "globPattern ''foo/*.txt'' = ''foo/*.txt''"
    by (simp add: globPattern_def startsWith_def endsWith_def)
  have n: "Glob_new scripted ''foo/*.txt'' = None"
    by (simp add: scripted_def globNew_def)
  have w: "Glob_scan scripted ((treeHost content extra)\<lparr>history := hist\<rparr>) ''foo/*.txt'' ''/repo'' True
           = ([''foo/a.txt'', ''foo/gone.txt''], None)"
    by (simp add: scripted_def host_scan_def treeHost_walk globMatch_def segMatch_def)
  have e: "existsSync scripted ((treeHost content extra)\<lparr>history := hist\<rparr>) ''/repo/foo/a.txt''"
          "\<not> existsSync scripted ((treeHost content extra)\<lparr>history := hist\<rparr>) ''/repo/foo/gone.txt''"
    by (simp_all add: scripted_def treeHost_walk)
  show ?thesis
    by (simp add: spec_matches_def p n w e join_repo_file)
qed

lemma treeHost_foo_result:
  "findExcludedFiles scripted (treeHost ''/foo/\<newline>'' []) ''/repo'' =
     (Inr [''foo/a.txt'', ''foo/sub/.b''], (treeHost ''/foo/\<newline>'' [])\<lparr>history := [revParse]\<rparr>)"
proof -
  have a: "getExcludePatterns scripted (treeHost ''/foo/\<newline>'' []) ''/repo'' =
             (Inr [''/foo/''], (treeHost ''/foo/\<newline>'' [])\<lparr>history := [revParse]\<rparr>)"
    by (simp only: treeHost_patterns spec_patterns_foo)
  show ?thesis
    using findExcludedFiles_resolved [OF a]
    by (simp add: treeHost_matches_foo new_Set_def set_add_def)
qed

text \<open>
  C4. Every path that \<open>findExcludedFiles\<close> returns exists when the resolver looks at
  it; a path that does not exist then, whatever scan yielded it, is not in the result.
\<close>

theorem findExcludedFiles_only_existing:
  assumes "findExcludedFiles os s repoRoot = (Inr files, s1)"
  shows "(\<forall>file \<in> set files. existsSync os s1 (join [repoRoot, file]))
         \<and> (\<forall>file. \<not> existsSync os s1 (join [repoRoot, file]) \<longrightarrow> file \<notin> set files)"
proof -
  obtain patterns where pat: "getExcludePatterns os s repoRoot = (Inr patterns, s1)"
    using findExcludedFiles_Inr [OF assms] by blast
  have "files = new_Set (concat (map (spec_matches os s1 repoRoot) patterns))"
    using findExcludedFiles_resolved [OF pat] assms by simp
  then have "\<forall>file \<in> set files. existsSync os s1 (join [repoRoot, file])"
    by (auto simp: set_new_Set dest: spec_matches_exist)
  then show ?thesis by blast
qed

theorem findExcludedFiles_only_existing_witness:
  "existsSync scripted ((treeHost ''/foo/\<newline>'' [])\<lparr>history := [revParse]\<rparr>) ''/repo/foo/a.txt''
   \<and> existsSync scripted ((treeHost ''/foo/\<newline>'' [])\<lparr>history := [revParse]\<rparr>) ''/repo/foo/sub/.b''
   \<and> \<not> existsSync scripted ((treeHost ''/foo/\<newline>'' [])\<lparr>history := [revParse]\<rparr>) ''/repo/foo/gone.txt''
   \<and> ''foo/gone.txt'' \<in> set (fst (Glob_scan scripted ((treeHost ''/foo/\<newline>'' [])\<lparr>history := [revParse]\<rparr>)
                                     ''foo/**/*'' ''/repo'' True))
   \<and> ''foo/gone.txt'' \<notin> set [''foo/a.txt'', ''foo/sub/.b'']"
proof -
  note t = findExcludedFiles_only_existing [OF treeHost_foo_result]
  have a: "existsSync scripted ((treeHost ''/foo/\<newline>'' [])\<lparr>history := [revParse]\<rparr>) ''/repo/foo/a.txt''"
    using t [THEN conjunct1] by (simp add: join_repo_file)
  have b: "existsSync scripted ((treeHost ''/foo/\<newline>'' [])\<lparr>history := [revParse]\<rparr>) ''/repo/foo/sub/.b''"
    using t [THEN conjunct1] by (simp add: join_repo_file)
  have c: "\<not> existsSync scripted ((treeHost ''/foo/\<newline>'' [])\<lparr>history := [revParse]\<rparr>) ''/repo/foo/gone.txt''"
    by (simp add: scripted_def treeHost_def)
  have d: "''foo/gone.txt'' \<notin> set [''foo/a.txt'', ''foo/sub/.b'']"
    using t [THEN conjunct2, THEN spec, of "''foo/gone.txt''"] c by (simp add: join_repo_file)
  have e: "''foo/gone.txt'' \<in> set (fst (Glob_scan scripted ((treeHost ''/foo/\<newline>'' [])\<lparr>history := [revParse]\<rparr>)
                                     ''foo/**/*'' ''/repo'' True))"
    by (simp add: scripted_def host_scan_def treeHost_walk globMatch_foo startsWith_def)
  show ?thesis using a b c d e by (intro conjI)
qed

text \<open>
  C8. Whatever the pattern list, the resolver returns a result: the files of all
  patterns, each once. A pattern whose glob cannot be constructed contributes no file,
  and the loop goes on with the next pattern as if the bad one were not in the list.
\<close>

theorem findExcludedFiles_skips_invalid_and_unions:
  assumes "getExcludePatterns os s repoRoot = (Inr patterns, s1)"
  shows "(\<exists>files. findExcludedFiles os s repoRoot = (Inr files, s1)
            \<and> distinct files
            \<and> set files = (\<Union>p \<in> set patterns. set (spec_matches os s1 repoRoot p)))
         \<and> (\<forall>p. Glob_new os (globPattern p) \<noteq> None \<longrightarrow>
               spec_matches os s1 repoRoot p = []
               \<and> (\<forall>ps qs acc. patternLoop os s1 repoRoot (ps @ p # qs) acc
                                = patternLoop os s1 repoRoot (ps @ qs) acc))"
proof -
  have a: "\<exists>files. findExcludedFiles os s repoRoot = (Inr files, s1)
            \<and> distinct files
            \<and> set files = (\<Union>p \<in> set patterns. set (spec_matches os s1 repoRoot p))"
    using findExcludedFiles_resolved [OF assms]
    by (simp add: distinct_new_Set set_new_Set)
  have b: "spec_matches os s1 repoRoot p = []" if "Glob_new os (globPattern p) \<noteq> None" for p
    using that by (auto simp: spec_matches_def)
  have c: "patternLoop os s1 repoRoot (ps @ p # qs) acc = patternLoop os s1 repoRoot (ps @ qs) acc"
    if "Glob_new os (globPattern p) \<noteq> None" for p ps qs acc
    using b [OF that] by (simp add: patternLoop_concat)
  show ?thesis
  proof (intro conjI allI impI)
    show "\<exists>files. findExcludedFiles os s repoRoot = (Inr files, s1)
            \<and> distinct files
            \<and> set files = (\<Union>p \<in> set patterns. set (spec_matches os s1 repoRoot p))"
      by (rule a)
  next
    fix p assume "Glob_new os (globPattern p) \<noteq> None"
    then show "spec_matches os s1 repoRoot p = []" by (rule b)
  next
    fix p ps qs acc assume "Glob_new os (globPattern p) \<noteq> None"
    then show "patternLoop os s1 repoRoot (ps @ p # qs) acc = patternLoop os s1 repoRoot (ps @ qs) acc"
      by (rule c)
  qed
qed

theorem findExcludedFiles_skips_invalid_and_unions_witness:
  "\<exists>files. findExcludedFiles scripted (treeHost ''/foo/\<newline>[\<newline>foo/*.txt\<newline>'' []) ''/repo''
             = (Inr files, (treeHost ''/foo/\<newline>[\<newline>foo/*.txt\<newline>'' [])\<lparr>history := [revParse]\<rparr>)
           \<and> distinct files
           \<and> set files = {''foo/a.txt'', ''foo/sub/.b''}
           \<and> spec_matches scripted
                ((treeHost ''/foo/\<newline>[\<newline>foo/*.txt\<newline>'' [])\<lparr>history := [revParse]\<rparr>) ''/repo'' ''['' = []"
proof -
  have l: "spec_patterns ''/foo/\<newline>[\<newline>foo/*.txt\<newline>'' = [''/foo/'', ''['', ''foo/*.txt'']"
    by (simp add: spec_patterns_def trim_def isWhiteSpace_def startsWith_def)
  have a: "getExcludePatterns scripted (treeHost ''/foo/\<newline>[\<newline>foo/*.txt\<newline>'' []) ''/repo'' =
             (Inr [''/foo/'', ''['', ''foo/*.txt''],
              (treeHost ''/foo/\<newline>[\<newline>foo/*.txt\<newline>'' [])\<lparr>history := [revParse]\<rparr>)"
    by (simp only: treeHost_patterns l)
  note t = findExcludedFiles_skips_invalid_and_unions [OF a]
  have k: "spec_matches scripted
             ((treeHost ''/foo/\<newline>[\<newline>foo/*.txt\<newline>'' [])\<lparr>history := [revParse]\<rparr>) ''/repo'' ''['' = []"
    using t [THEN conjunct2, THEN spec, of "''[''"] treeHost_matches_bracket by blast
  from t [THEN conjunct1]
  obtain files where
    f1: "findExcludedFiles scripted (treeHost ''/foo/\<newline>[\<newline>foo/*.txt\<newline>'' []) ''/repo''
           = (Inr files, (treeHost ''/foo/\<newline>[\<newline>foo/*.txt\<newline>'' [])\<lparr>history := [revParse]\<rparr>)" and
    f2: "distinct files" and
    f3: "set files = (\<Union>p \<in> set [''/foo/'', ''['', ''foo/*.txt''].
            set (spec_matches scripted
                   ((treeHost ''/foo/\<newline>[\<newline>foo/*.txt\<newline>'' [])\<lparr>history := [revParse]\<rparr>) ''/repo'' p))"
    by (elim exE conjE)
  have f4: "set files = {''foo/a.txt'', ''foo/sub/.b''}"
    unfolding f3 by (simp add: treeHost_matches_foo treeHost_matches_txt k)
  show ?thesis
    using f1 f2 f4 k by (intro exI [of _ files] conjI)
qed

subsection \<open>The worktree listing\<close>

lemma replace_prefix: "pat \<noteq> [] \<Longrightarrow> replace (pat @ s) pat [] = s"
  by (cases pat) (simp_all add: startsWith_def)

lemma split_lines:
  "\<forall>l \<in> set ls. c \<notin> set l \<Longrightarrow> split (concat (map (\<lambda>l. l @ [c]) ls)) c = ls @ [[]]"
proof (induction ls)
  case Nil
  show ?case by simp
next
  case (Cons l ls)
  then have "split (l @ c # concat (map (\<lambda>l. l @ [c]) ls)) c = l # (ls @ [[]])"
    by (simp add: split_append)
  then show ?case by simp
qed

lemma worktreeLoop_attributes:
  "list_all attribute xs \<Longrightarrow>
   worktreeLoop (xs @ rest) ws p b = worktreeLoop rest ws p b"
  by (induction xs) (simp_all add: attribute_def)

lemma worktreeLoop_end: "worktreeLoop [[]] ws p b = ws"
  by (simp add: startsWith_def)

lemma worktree_line: "startsWith (''worktree '' @ x) ''worktree ''"
  by (simp add: startsWith_def)

lemma branch_line:
  "\<not> startsWith (''branch refs/heads/'' @ x) ''worktree ''"
  "startsWith (''branch refs/heads/'' @ x) ''branch ''"
  by (simp_all add: startsWith_def)

lemma step_worktree:
  "worktreeLoop ((''worktree '' @ x) # rest) ws p b = worktreeLoop rest ws x b"
proof -
  have r: "replace (''worktree '' @ x) ''worktree '' [] = x"
    by (rule replace_prefix) simp
  show ?thesis
    by (simp only: worktreeLoop.simps worktree_line if_True r)
qed

lemma step_branch:
  "worktreeLoop ((''branch refs/heads/'' @ x) # rest) ws p b =
     worktreeLoop rest
       (ws @ (if startsWith x ''bytree/'' then [\<lparr>path = p, branch = x\<rparr>] else [])) p x"
proof -
  have r: "replace (''branch refs/heads/'' @ x) ''branch refs/heads/'' [] = x"
    by (rule replace_prefix) simp
  show ?thesis
  proof (cases "startsWith x ''bytree/''")
    case True
    then show ?thesis
      by (simp only: worktreeLoop.simps branch_line if_True if_False r Let_def)
  next
    case False
    then show ?thesis
      by (simp only: worktreeLoop.simps branch_line if_True if_False r Let_def append_Nil2)
  qed
qed

lemma step_empty: "worktreeLoop ([] # rest) ws p b = worktreeLoop rest ws p b"
  by (simp add: startsWith_def)

lemma worktreeLoop_block:
  assumes "wellListed e"
  shows "\<exists>b'. worktreeLoop (block e @ rest) ws p b = worktreeLoop rest (ws @ spec_listing [e]) (wpath e) b'"
proof -
  have bef: "list_all attribute (before e)" and aft: "list_all attribute (after e)"
    using assms by (simp_all add: wellListed_def)
  have tail: "worktreeLoop (after e @ [] # rest) ws' p' b' = worktreeLoop rest ws' p' b'" for ws' p' b'
    by (simp only: worktreeLoop_attributes [OF aft] step_empty)
  show ?thesis
  proof (cases "wbranch e")
    case None
    have "block e @ rest = (''worktree '' @ wpath e) # (before e @ (after e @ [] # rest))"
      by (simp add: block_def None)
    then have "worktreeLoop (block e @ rest) ws p b = worktreeLoop rest ws (wpath e) b"
      by (simp only: step_worktree worktreeLoop_attributes [OF bef] tail)
    moreover have "spec_listing [e] = []"
      by (simp add: spec_listing_def None)
    ultimately show ?thesis by auto
  next
    case (Some br)
    have "block e @ rest =
            (''worktree '' @ wpath e)
            # (before e @ ((''branch refs/heads/'' @ br) # (after e @ [] # rest)))"
      by (simp add: block_def Some)
    then have "worktreeLoop (block e @ rest) ws p b =
                 worktreeLoop rest
                   (ws @ (if startsWith br ''bytree/'' then [\<lparr>path = wpath e, branch = br\<rparr>] else []))
                   (wpath e) br"
      by (simp only: step_worktree worktreeLoop_attributes [OF bef] step_branch tail)
    moreover have "spec_listing [e] = (if startsWith br ''bytree/'' then [\<lparr>path = wpath e, branch = br\<rparr>] else [])"
      by (simp add: spec_listing_def Some)
    ultimately show ?thesis by auto
  qed
qed

lemma worktreeLoop_blocks:
  "list_all wellListed es \<Longrightarrow>
   \<exists>p' b'. worktreeLoop (concat (map block es) @ rest) ws p b = worktreeLoop rest (ws @ spec_listing es) p' b'"
proof (induction es arbitrary: ws p b)
  case Nil
  show ?case by (auto simp: spec_listing_def)
next
  case (Cons e es)
  then have e: "wellListed e" and es: "list_all wellListed es" by simp_all
  obtain b1 where 1: "worktreeLoop (block e @ (concat (map block es) @ rest)) ws p b
      = worktreeLoop (concat (map block es) @ rest) (ws @ spec_listing [e]) (wpath e) b1"
    using worktreeLoop_block [OF e] by blast
  obtain p2 b2 where 2: "worktreeLoop (concat (map block es) @ rest) (ws @ spec_listing [e]) (wpath e) b1
      = worktreeLoop rest ((ws @ spec_listing [e]) @ spec_listing es) p2 b2"
    using Cons.IH [OF es] by blast
  have 3: "concat (map block (e # es)) @ rest = block e @ (concat (map block es) @ rest)"
    by simp
  have 4: "ws @ spec_listing (e # es) = (ws @ spec_listing [e]) @ spec_listing es"
    by (simp add: spec_listing_def)
  have "worktreeLoop (concat (map block (e # es)) @ rest) ws p b
      = worktreeLoop rest (ws @ spec_listing (e # es)) p2 b2"
    by (simp only: 1 2 3 4)
  then show ?case by blast
qed

lemma block_lines:
  "wellListed e \<Longrightarrow> \<forall>l \<in> set (block e). CHR 0x0A \<notin> set l"
  by (auto simp: wellListed_def block_def attribute_def list_all_iff split: option.splits)

lemma worktreeLoop_porcelain:
  assumes "list_all wellListed es"
  shows "worktreeLoop (split (porcelain es) CHR 0x0A) [] [] [] = spec_listing es"
proof -
  have "\<forall>l \<in> set (concat (map block es)). CHR 0x0A \<notin> set l"
    using assms block_lines by (auto simp: list_all_iff)
  then have "split (porcelain es) CHR 0x0A = concat (map block es) @ [[]]"
    unfolding porcelain_def by (rule split_lines)
  moreover obtain p' b' where
    "worktreeLoop (concat (map block es) @ [[]]) [] [] [] = worktreeLoop [[]] ([] @ spec_listing es) p' b'"
    using worktreeLoop_blocks [OF assms] by blast
  ultimately show ?thesis by (simp only: worktreeLoop_end append_Nil)
qed

lemma worktreeLoop_prefix:
  "w \<in> set (worktreeLoop ls ws p b) \<Longrightarrow> w \<in> set ws \<or> startsWith (branch w) ''bytree/''"
proof (induction ls arbitrary: ws p b)
  case Nil
  then show ?case by simp
next
  case (Cons l ls)
  show ?case
  proof (cases "startsWith l ''worktree ''")
    case True
    with Cons show ?thesis by simp
  next
    case nw: False
    show ?thesis
    proof (cases "startsWith l ''branch ''")
      case False
      with nw Cons show ?thesis by simp
    next
      case True
      show ?thesis
      proof (cases "startsWith (replace l ''branch refs/heads/'' []) ''bytree/''")
        case False
        with nw True Cons show ?thesis by (simp add: Let_def)
      next
        case p: True
        with nw True Cons.prems
        have "w \<in> set (worktreeLoop ls (ws @ [\<lparr>path = p, branch = replace l ''branch refs/heads/'' []\<rparr>])
                          p (replace l ''branch refs/heads/'' []))"
          by (simp add: Let_def)
        from Cons.IH [OF this] p show ?thesis by auto
      qed
    qed
  qed
qed

text \<open>
  C6. Every entry that \<open>listMyWorktrees\<close> returns has a branch that begins with
  \<open>bytree/\<close>. On the machine-readable listing of git, the result is exactly the pairs
  of the listing whose branch carries that prefix, each branch with the path of the
  block it stands in, in the order of the listing.
\<close>

theorem listMyWorktrees_prefixed_pairs:
  assumes "sh os s [''git'', ''-C'', repoRoot, ''worktree'', ''list'', ''--porcelain''] = (p, s1)"
    and "exitCode p = 0"
  shows "(\<exists>ws. listMyWorktrees os s repoRoot = (Inr ws, s1)
            \<and> (\<forall>w \<in> set ws. startsWith (branch w) ''bytree/''))
         \<and> (\<forall>es. list_all wellListed es \<and> stdout p = porcelain es \<longrightarrow>
               listMyWorktrees os s repoRoot = (Inr (spec_listing es), s1))"
proof -
  have r: "listMyWorktrees os s repoRoot = (Inr (worktreeLoop (split (stdout p) CHR 0x0A) [] [] []), s1)"
    using assms by (simp add: listMyWorktrees_def quiet_cases)
  have a: "\<forall>w \<in> set (worktreeLoop (split (stdout p) CHR 0x0A) [] [] []). startsWith (branch w) ''bytree/''"
    using worktreeLoop_prefix by fastforce
  have b: "listMyWorktrees os s repoRoot = (Inr (spec_listing es), s1)"
    if "list_all wellListed es \<and> stdout p = porcelain es" for es
    using that r by (simp add: worktreeLoop_porcelain)
  show ?thesis
  proof (intro conjI allI impI)
    show "\<exists>ws. listMyWorktrees os s repoRoot = (Inr ws, s1)
            \<and> (\<forall>w \<in> set ws. startsWith (branch w) ''bytree/'')"
      using r a by blast
  next
    fix es assume "list_all wellListed es \<and> stdout p = porcelain es"
    then show "listMyWorktrees os s repoRoot = (Inr (spec_listing es), s1)" by (rule b)
  qed
qed

theorem listMyWorktrees_prefixed_pairs_witness:
  "listMyWorktrees scripted listingHost ''/repo'' =
     (Inr [\<lparr>path = ''/repo-bytree/demo'', branch = ''bytree/demo''\<rparr>],
      listingHost\<lparr>history := [worktreeList]\<rparr>)"
proof -
  have a: "sh scripted listingHost [''git'', ''-C'', ''/repo'', ''worktree'', ''list'', ''--porcelain'']
             = (\<lparr>exitCode = 0, stdout = porcelain exampleListing\<rparr>,
                listingHost\<lparr>history := [worktreeList]\<rparr>)"
    by (simp add: host_simps listingHost_def worktreeList_def porcelain_def block_def exampleListing_def)
  have b: "exitCode \<lparr>exitCode = 0, stdout = porcelain exampleListing\<rparr> = 0"
    by simp
  have w: "list_all wellListed exampleListing"
    by (simp add: exampleListing_def wellListed_def attribute_def startsWith_def)
  have m: "spec_listing exampleListing = [\<lparr>path = ''/repo-bytree/demo'', branch = ''bytree/demo''\<rparr>]"
    by (simp add: exampleListing_def spec_listing_def startsWith_def)
  show ?thesis
    using listMyWorktrees_prefixed_pairs [OF a b, THEN conjunct2, THEN spec, of exampleListing] w m
    by simp
qed

subsection \<open>Replication\<close>

lemma copyLoop_Cons_Inr:
  assumes "copyLoop os s repoRoot worktreePath (f # files) copied = (Inr copied', s')"
  shows "\<exists>s2. copyLoop os s2 repoRoot worktreePath files (copied @ [f]) = (Inr copied', s')
              \<and> (\<forall>rest. copyLoop os s repoRoot worktreePath (f # rest) copied
                           = copyLoop os s2 repoRoot worktreePath rest (copied @ [f]))"
proof -
  obtain r1 s1 where q1: "quiet os s [''mkdir'', ''-p'', dirname (join [worktreePath, f])] = (r1, s1)"
    by (cases "quiet os s [''mkdir'', ''-p'', dirname (join [worktreePath, f])]")
  obtain r2 s2 where q2: "quiet os s1 [''cp'', ''-r'', join [repoRoot, f], join [worktreePath, f]] = (r2, s2)"
    by (cases "quiet os s1 [''cp'', ''-r'', join [repoRoot, f], join [worktreePath, f]]")
  from assms q1 obtain x1 where r1: "r1 = Inr x1"
    by (cases r1) (simp_all add: Let_def)
  from assms q1 q2 r1 obtain x2 where r2: "r2 = Inr x2"
    by (cases r2) (simp_all add: Let_def)
  have "copyLoop os s repoRoot worktreePath (f # rest) copied
          = copyLoop os s2 repoRoot worktreePath rest (copied @ [f])" for rest
    by (simp add: Let_def q1 q2 r1 r2)
  with assms show ?thesis by metis
qed

lemma copyLoop_copied:
  "copyLoop os s repoRoot worktreePath files copied = (Inr copied', s') \<Longrightarrow>
   copied' = copied @ files"
proof (induction files arbitrary: s copied)
  case Nil
  then show ?case by simp
next
  case (Cons f files)
  from copyLoop_Cons_Inr [OF Cons.prems] obtain s2 where
    "copyLoop os s2 repoRoot worktreePath files (copied @ [f]) = (Inr copied', s')"
    by blast
  from Cons.IH [OF this] show ?case by simp
qed

lemma copyLoop_append_ok:
  "copyLoop os s repoRoot worktreePath files copied = (Inr copied', s') \<Longrightarrow>
   copyLoop os s repoRoot worktreePath (files @ rest) copied
     = copyLoop os s' repoRoot worktreePath rest copied'"
proof (induction files arbitrary: s copied)
  case Nil
  then show ?case by simp
next
  case (Cons f files)
  from copyLoop_Cons_Inr [OF Cons.prems] obtain s2 where
    a: "copyLoop os s2 repoRoot worktreePath files (copied @ [f]) = (Inr copied', s')" and
    b: "\<And>rest. copyLoop os s repoRoot worktreePath (f # rest) copied
                = copyLoop os s2 repoRoot worktreePath rest (copied @ [f])"
    by blast
  have "copyLoop os s repoRoot worktreePath ((f # files) @ rest) copied
          = copyLoop os s2 repoRoot worktreePath (files @ rest) (copied @ [f])"
    using b [of "files @ rest"] by simp
  also have "\<dots> = copyLoop os s' repoRoot worktreePath rest copied'"
    by (rule Cons.IH [OF a])
  finally show ?case .
qed

lemma copyLoop_step:
  assumes "sh os s [''mkdir'', ''-p'', dirname (join [worktreePath, f])] = (p1, s1)"
    and "sh os s1 [''cp'', ''-r'', join [repoRoot, f], join [worktreePath, f]] = (p2, s2)"
  shows "copyLoop os s repoRoot worktreePath (f # rest) copied =
           (if exitCode p1 \<noteq> 0 then (Inl (ShellError (exitCode p1)), s1)
            else if exitCode p2 \<noteq> 0 then (Inl (ShellError (exitCode p2)), s2)
            else copyLoop os s2 repoRoot worktreePath rest (copied @ [f]))"
  using assms by (simp add: Let_def quiet_cases)

lemma getGitDir_state:
  "snd (getGitDir os s repoRoot) = snd (sh os s [''git'', ''-C'', repoRoot, ''rev-parse'', ''--git-common-dir''])"
  by (simp add: getGitDir_def quiet_def Let_def split: prod.splits)

lemma getExcludePatterns_state:
  "snd (getExcludePatterns os s repoRoot) = snd (getGitDir os s repoRoot)"
  by (simp add: getExcludePatterns_def Let_def split: prod.splits sum.splits)

lemma findExcludedFiles_state:
  "snd (findExcludedFiles os s repoRoot) = snd (getExcludePatterns os s repoRoot)"
  by (simp add: findExcludedFiles_def split: prod.splits sum.splits)

lemma copyExcludedFiles_step:
  assumes "findExcludedFiles os s repoRoot = (Inr (pre @ f # post), s1)"
    and "copyLoop os s1 repoRoot worktreePath pre [] = (Inr copied, s2)"
    and "sh os s2 [''mkdir'', ''-p'', dirname (join [worktreePath, f])] = (p1, s3)"
    and "sh os s3 [''cp'', ''-r'', join [repoRoot, f], join [worktreePath, f]] = (p2, s4)"
  shows "copyExcludedFiles os s repoRoot worktreePath =
           (if exitCode p1 \<noteq> 0 then (Inl (ShellError (exitCode p1)), s3)
            else if exitCode p2 \<noteq> 0 then (Inl (ShellError (exitCode p2)), s4)
            else copyLoop os s4 repoRoot worktreePath post (pre @ [f]))"
proof -
  have c: "copied = pre"
    using copyLoop_copied [OF assms(2)] by simp
  have "copyExcludedFiles os s repoRoot worktreePath
          = copyLoop os s1 repoRoot worktreePath (pre @ f # post) []"
    using assms(1) by (simp add: copyExcludedFiles_def)
  also have "\<dots> = copyLoop os s2 repoRoot worktreePath (f # post) pre"
    using copyLoop_append_ok [OF assms(2)] c by simp
  also have "\<dots> = (if exitCode p1 \<noteq> 0 then (Inl (ShellError (exitCode p1)), s3)
            else if exitCode p2 \<noteq> 0 then (Inl (ShellError (exitCode p2)), s4)
            else copyLoop os s4 repoRoot worktreePath post (pre @ [f]))"
    by (rule copyLoop_step [OF assms(3) assms(4)])
  finally show ?thesis .
qed

lemma copyLoop_all_succeed:
  "copiesSucceed os s repoRoot worktreePath files \<Longrightarrow>
   copyLoop os s repoRoot worktreePath files copied =
     (Inr (copied @ files), afterCopies os s repoRoot worktreePath files)"
proof (induction files arbitrary: s copied)
  case Nil
  show ?case by simp
next
  case (Cons f files)
  obtain p1 s1 where m: "sh os s [''mkdir'', ''-p'', dirname (join [worktreePath, f])] = (p1, s1)"
    by (cases "sh os s [''mkdir'', ''-p'', dirname (join [worktreePath, f])]")
  obtain p2 s2 where c: "sh os s1 [''cp'', ''-r'', join [repoRoot, f], join [worktreePath, f]] = (p2, s2)"
    by (cases "sh os s1 [''cp'', ''-r'', join [repoRoot, f], join [worktreePath, f]]")
  from Cons.prems m c have ok: "exitCode p1 = 0" "exitCode p2 = 0"
    and rest: "copiesSucceed os s2 repoRoot worktreePath files"
    by simp_all
  have "copyLoop os s repoRoot worktreePath (f # files) copied
          = copyLoop os s2 repoRoot worktreePath files (copied @ [f])"
    using copyLoop_step [OF m c] ok by simp
  also have "\<dots> = (Inr ((copied @ [f]) @ files), afterCopies os s2 repoRoot worktreePath files)"
    by (rule Cons.IH [OF rest])
  finally show ?case by (simp add: m c)
qed

text \<open>
  C7. Let the resolver return the list \<open>files\<close>. When the two commands of every entry
  exit with code 0, \<open>copyExcludedFiles\<close> returns \<open>files\<close>, all of them copied, in the
  state that these commands leave. When \<open>files\<close> is \<open>pre\<close>, then \<open>f\<close>, then \<open>post\<close>, the
  commands for \<open>pre\<close> succeed and the creation of the parent directory of \<open>f\<close> or the
  copy of \<open>f\<close> fails, it raises the error of that command in the state that the command
  leaves: nothing is run for \<open>post\<close>. The error is the one of the shell; the
  specification calls it ReplicationFailed. A call that returns a list returns \<open>files\<close>.
\<close>

theorem copyExcludedFiles_aborts_on_first_failure:
  assumes "findExcludedFiles os s repoRoot = (Inr files, s1)"
  shows "(copiesSucceed os s1 repoRoot worktreePath files \<longrightarrow>
            copyExcludedFiles os s repoRoot worktreePath
              = (Inr files, afterCopies os s1 repoRoot worktreePath files))
         \<and> (\<forall>pre f post p1 s3 p2 s4.
               files = pre @ f # post
               \<and> copiesSucceed os s1 repoRoot worktreePath pre
               \<and> sh os (afterCopies os s1 repoRoot worktreePath pre)
                     [''mkdir'', ''-p'', dirname (join [worktreePath, f])] = (p1, s3)
               \<and> sh os s3 [''cp'', ''-r'', join [repoRoot, f], join [worktreePath, f]] = (p2, s4)
               \<longrightarrow>
               copyExcludedFiles os s repoRoot worktreePath =
                 (if exitCode p1 \<noteq> 0 then (Inl (ShellError (exitCode p1)), s3)
                  else if exitCode p2 \<noteq> 0 then (Inl (ShellError (exitCode p2)), s4)
                  else copyLoop os s4 repoRoot worktreePath post (pre @ [f])))
         \<and> (\<forall>copied' s'. copyExcludedFiles os s repoRoot worktreePath = (Inr copied', s')
               \<longrightarrow> copied' = files)"
proof (intro conjI allI impI)
  assume "copiesSucceed os s1 repoRoot worktreePath files"
  from copyLoop_all_succeed [OF this, of "[]"] assms
  show "copyExcludedFiles os s repoRoot worktreePath
          = (Inr files, afterCopies os s1 repoRoot worktreePath files)"
    by (simp add: copyExcludedFiles_def)
next
  fix pre f post p1 s3 p2 s4
  assume h: "files = pre @ f # post
               \<and> copiesSucceed os s1 repoRoot worktreePath pre
               \<and> sh os (afterCopies os s1 repoRoot worktreePath pre)
                     [''mkdir'', ''-p'', dirname (join [worktreePath, f])] = (p1, s3)
               \<and> sh os s3 [''cp'', ''-r'', join [repoRoot, f], join [worktreePath, f]] = (p2, s4)"
  then have r: "findExcludedFiles os s repoRoot = (Inr (pre @ f # post), s1)"
    using assms by simp
  have l: "copyLoop os s1 repoRoot worktreePath pre []
             = (Inr pre, afterCopies os s1 repoRoot worktreePath pre)"
    using copyLoop_all_succeed [of os s1 repoRoot worktreePath pre "[]"] h by simp
  from h have m: "sh os (afterCopies os s1 repoRoot worktreePath pre)
                     [''mkdir'', ''-p'', dirname (join [worktreePath, f])] = (p1, s3)"
    and c: "sh os s3 [''cp'', ''-r'', join [repoRoot, f], join [worktreePath, f]] = (p2, s4)"
    by simp_all
  show "copyExcludedFiles os s repoRoot worktreePath =
          (if exitCode p1 \<noteq> 0 then (Inl (ShellError (exitCode p1)), s3)
           else if exitCode p2 \<noteq> 0 then (Inl (ShellError (exitCode p2)), s4)
           else copyLoop os s4 repoRoot worktreePath post (pre @ [f]))"
    by (rule copyExcludedFiles_step [OF r l m c])
next
  fix copied' s'
  assume "copyExcludedFiles os s repoRoot worktreePath = (Inr copied', s')"
  with assms have "copyLoop os s1 repoRoot worktreePath files [] = (Inr copied', s')"
    by (simp add: copyExcludedFiles_def)
  from copyLoop_copied [OF this] show "copied' = files" by simp
qed

lemma join_wt_file:
  "join [''/wt'', ''foo/a.txt''] = ''/wt/foo/a.txt''"
  "join [''/wt'', ''foo/sub/.b''] = ''/wt/foo/sub/.b''"
  "join [''/wt'', ''README.md''] = ''/wt/README.md''"
  by (simp_all add: join_def normalize_def Let_def)

lemma dirname_wt_file:
  "dirname ''/wt/foo/a.txt'' = ''/wt/foo''"
  "dirname ''/wt/foo/sub/.b'' = ''/wt/foo/sub''"
  "dirname ''/wt/README.md'' = ''/wt''"
  by (simp_all add: dirname_def Let_def)

lemma treeHost_matches_readme:
  "spec_matches scripted ((treeHost content extra)\<lparr>history := hist\<rparr>) ''/repo'' ''README.md''
     = [''README.md'']"
proof -
  have p: "globPattern ''README.md'' = ''README.md''"
    by (simp add: globPattern_def startsWith_def endsWith_def)
  have n: "Glob_new scripted ''README.md'' = None"
    by (simp add: scripted_def globNew_def)
  have w: "Glob_scan scripted ((treeHost content extra)\<lparr>history := hist\<rparr>) ''README.md'' ''/repo'' True
           = ([''README.md''], None)"
    by (simp add: scripted_def host_scan_def treeHost_walk globMatch_def segMatch_def)
  have e: "existsSync scripted ((treeHost content extra)\<lparr>history := hist\<rparr>) ''/repo/README.md''"
    by (simp_all add: scripted_def treeHost_walk)
  show ?thesis
    by (simp add: spec_matches_def p n w e join_repo_file)
qed

lemma copyHost_resolved:
  "findExcludedFiles scripted (copyHost code) ''/repo'' =
     (Inr [''foo/a.txt'', ''foo/sub/.b'', ''README.md''], (copyHost code)\<lparr>history := [revParse]\<rparr>)"
proof -
  have l: "spec_patterns ''/foo/\<newline>README.md\<newline>'' = [''/foo/'', ''README.md'']"
    by (simp add: spec_patterns_def trim_def isWhiteSpace_def startsWith_def)
  have a: "getExcludePatterns scripted (copyHost code) ''/repo'' =
             (Inr [''/foo/'', ''README.md''], (copyHost code)\<lparr>history := [revParse]\<rparr>)"
    unfolding copyHost_def by (simp only: treeHost_patterns l)
  show ?thesis
    using findExcludedFiles_resolved [OF a]
    unfolding copyHost_def
    by (simp add: treeHost_matches_foo treeHost_matches_readme new_Set_def set_add_def)
qed

lemma copyHost_first:
  "copiesSucceed scripted ((copyHost code)\<lparr>history := [revParse]\<rparr>) ''/repo'' ''/wt'' [''foo/a.txt'']"
  "afterCopies scripted ((copyHost code)\<lparr>history := [revParse]\<rparr>) ''/repo'' ''/wt'' [''foo/a.txt'']
     = (copyHost code)\<lparr>history := [revParse, [''mkdir'', ''-p'', ''/wt/foo''],
                                      [''cp'', ''-r'', ''/repo/foo/a.txt'', ''/wt/foo/a.txt'']]\<rparr>"
  by (simp_all add: join_wt_file join_repo_file dirname_wt_file host_simps copyHost_def treeHost_def)

lemma copyHost_all:
  "copiesSucceed scripted ((copyHost 0)\<lparr>history := [revParse]\<rparr>) ''/repo'' ''/wt''
     [''foo/a.txt'', ''foo/sub/.b'', ''README.md'']"
  "afterCopies scripted ((copyHost 0)\<lparr>history := [revParse]\<rparr>) ''/repo'' ''/wt''
     [''foo/a.txt'', ''foo/sub/.b'', ''README.md'']
     = (copyHost 0)\<lparr>history := [revParse,
          [''mkdir'', ''-p'', ''/wt/foo''],
          [''cp'', ''-r'', ''/repo/foo/a.txt'', ''/wt/foo/a.txt''],
          [''mkdir'', ''-p'', ''/wt/foo/sub''],
          [''cp'', ''-r'', ''/repo/foo/sub/.b'', ''/wt/foo/sub/.b''],
          [''mkdir'', ''-p'', ''/wt''],
          [''cp'', ''-r'', ''/repo/README.md'', ''/wt/README.md'']]\<rparr>"
  by (simp_all add: join_wt_file join_repo_file dirname_wt_file host_simps copyHost_def treeHost_def)

theorem copyExcludedFiles_aborts_on_first_failure_witness:
  "copyExcludedFiles scripted (copyHost 0) ''/repo'' ''/wt'' =
     (Inr [''foo/a.txt'', ''foo/sub/.b'', ''README.md''],
      (copyHost 0)\<lparr>history :=
        [revParse,
         [''mkdir'', ''-p'', ''/wt/foo''],
         [''cp'', ''-r'', ''/repo/foo/a.txt'', ''/wt/foo/a.txt''],
         [''mkdir'', ''-p'', ''/wt/foo/sub''],
         [''cp'', ''-r'', ''/repo/foo/sub/.b'', ''/wt/foo/sub/.b''],
         [''mkdir'', ''-p'', ''/wt''],
         [''cp'', ''-r'', ''/repo/README.md'', ''/wt/README.md'']]\<rparr>)
   \<and> copyExcludedFiles scripted (copyHost 1) ''/repo'' ''/wt'' =
     (Inl (ShellError 1),
      (copyHost 1)\<lparr>history :=
        [revParse,
         [''mkdir'', ''-p'', ''/wt/foo''],
         [''cp'', ''-r'', ''/repo/foo/a.txt'', ''/wt/foo/a.txt''],
         [''mkdir'', ''-p'', ''/wt/foo/sub''],
         [''cp'', ''-r'', ''/repo/foo/sub/.b'', ''/wt/foo/sub/.b'']]\<rparr>)"
proof -
  note ok = copyExcludedFiles_aborts_on_first_failure
              [OF copyHost_resolved, of 0 "''/wt''", THEN conjunct1, THEN mp, OF copyHost_all(1)]
  have good: "copyExcludedFiles scripted (copyHost 0) ''/repo'' ''/wt'' =
     (Inr [''foo/a.txt'', ''foo/sub/.b'', ''README.md''],
      (copyHost 0)\<lparr>history :=
        [revParse,
         [''mkdir'', ''-p'', ''/wt/foo''],
         [''cp'', ''-r'', ''/repo/foo/a.txt'', ''/wt/foo/a.txt''],
         [''mkdir'', ''-p'', ''/wt/foo/sub''],
         [''cp'', ''-r'', ''/repo/foo/sub/.b'', ''/wt/foo/sub/.b''],
         [''mkdir'', ''-p'', ''/wt''],
         [''cp'', ''-r'', ''/repo/README.md'', ''/wt/README.md'']]\<rparr>)"
    using ok by (simp only: copyHost_all(2))
  have l: "[''foo/a.txt'', ''foo/sub/.b'', ''README.md''] = [''foo/a.txt''] @ ''foo/sub/.b'' # [''README.md'']"
    by simp
  have c: "sh scripted (afterCopies scripted ((copyHost 1)\<lparr>history := [revParse]\<rparr>) ''/repo'' ''/wt''
                          [''foo/a.txt''])
              [''mkdir'', ''-p'', dirname (join [''/wt'', ''foo/sub/.b''])]
             = (\<lparr>exitCode = 0, stdout = []\<rparr>,
                (copyHost 1)\<lparr>history := [revParse, [''mkdir'', ''-p'', ''/wt/foo''],
                   [''cp'', ''-r'', ''/repo/foo/a.txt'', ''/wt/foo/a.txt''],
                   [''mkdir'', ''-p'', ''/wt/foo/sub'']]\<rparr>)"
    unfolding copyHost_first
    by (simp add: join_wt_file dirname_wt_file host_simps copyHost_def treeHost_def)
  have d: "sh scripted ((copyHost 1)\<lparr>history := [revParse, [''mkdir'', ''-p'', ''/wt/foo''],
                   [''cp'', ''-r'', ''/repo/foo/a.txt'', ''/wt/foo/a.txt''],
                   [''mkdir'', ''-p'', ''/wt/foo/sub'']]\<rparr>)
              [''cp'', ''-r'', join [''/repo'', ''foo/sub/.b''], join [''/wt'', ''foo/sub/.b'']]
             = (\<lparr>exitCode = 1, stdout = []\<rparr>,
                (copyHost 1)\<lparr>history := [revParse, [''mkdir'', ''-p'', ''/wt/foo''],
                   [''cp'', ''-r'', ''/repo/foo/a.txt'', ''/wt/foo/a.txt''],
                   [''mkdir'', ''-p'', ''/wt/foo/sub''],
                   [''cp'', ''-r'', ''/repo/foo/sub/.b'', ''/wt/foo/sub/.b'']]\<rparr>)"
    by (simp add: join_wt_file join_repo_file host_simps copyHost_def treeHost_def)
  note ab = copyExcludedFiles_aborts_on_first_failure
              [OF copyHost_resolved, of 1 "''/wt''", THEN conjunct2, THEN conjunct1,
               THEN spec, THEN spec, THEN spec, THEN spec, THEN spec, THEN spec, THEN spec,
               THEN mp, OF conjI [OF l conjI [OF copyHost_first(1) conjI [OF c d]]]]
  have bad: "copyExcludedFiles scripted (copyHost 1) ''/repo'' ''/wt'' =
     (Inl (ShellError 1),
      (copyHost 1)\<lparr>history :=
        [revParse,
         [''mkdir'', ''-p'', ''/wt/foo''],
         [''cp'', ''-r'', ''/repo/foo/a.txt'', ''/wt/foo/a.txt''],
         [''mkdir'', ''-p'', ''/wt/foo/sub''],
         [''cp'', ''-r'', ''/repo/foo/sub/.b'', ''/wt/foo/sub/.b'']]\<rparr>)"
    using ab by simp
  show ?thesis using good bad by (intro conjI)
qed

text \<open>
  C9. When the resolver returns the empty list, \<open>copyExcludedFiles\<close> returns the empty
  list in the state that the resolver leaves, which is the state after the one command
  of the resolver, the query of the metadata directory: no directory is made and no
  file is copied.
\<close>

theorem copyExcludedFiles_nothing_to_copy:
  assumes "findExcludedFiles os s repoRoot = (Inr [], s1)"
  shows "copyExcludedFiles os s repoRoot worktreePath = (Inr [], s1)
         \<and> s1 = snd (sh os s [''git'', ''-C'', repoRoot, ''rev-parse'', ''--git-common-dir''])"
proof -
  have "snd (findExcludedFiles os s repoRoot)
          = snd (sh os s [''git'', ''-C'', repoRoot, ''rev-parse'', ''--git-common-dir''])"
    by (simp only: findExcludedFiles_state getExcludePatterns_state getGitDir_state)
  then show ?thesis
    using assms by (simp add: copyExcludedFiles_def)
qed

lemma treeHost_matches_none:
  "spec_matches scripted ((treeHost content extra)\<lparr>history := hist\<rparr>) ''/repo'' ''/none/'' = []"
proof -
  have p: "globPattern ''/none/'' = ''none/**/*''"
    by (simp add: globPattern_def startsWith_def endsWith_def)
  have n: "Glob_new scripted ''none/**/*'' = None"
    by (simp add: scripted_def globNew_def)
  have w: "Glob_scan scripted ((treeHost content extra)\<lparr>history := hist\<rparr>) ''none/**/*'' ''/repo'' True
           = ([], None)"
    by (simp add: scripted_def host_scan_def treeHost_walk globMatch_def segMatch_def)
  show ?thesis
    by (simp add: spec_matches_def p n w)
qed

theorem copyExcludedFiles_nothing_to_copy_witness:
  "copyExcludedFiles scripted (treeHost ''/none/\<newline>'' []) ''/repo'' ''/wt''
     = (Inr [], (treeHost ''/none/\<newline>'' [])\<lparr>history := [revParse]\<rparr>)"
proof -
  have l: "spec_patterns ''/none/\<newline>'' = [''/none/'']"
    by (simp add: spec_patterns_def trim_def isWhiteSpace_def startsWith_def)
  have a: "getExcludePatterns scripted (treeHost ''/none/\<newline>'' []) ''/repo'' =
             (Inr [''/none/''], (treeHost ''/none/\<newline>'' [])\<lparr>history := [revParse]\<rparr>)"
    by (simp only: treeHost_patterns l)
  have r: "findExcludedFiles scripted (treeHost ''/none/\<newline>'' []) ''/repo'' =
             (Inr [], (treeHost ''/none/\<newline>'' [])\<lparr>history := [revParse]\<rparr>)"
    using findExcludedFiles_resolved [OF a]
    by (simp add: treeHost_matches_none new_Set_def)
  show ?thesis
    using copyExcludedFiles_nothing_to_copy [OF r] by simp
qed

subsection \<open>Creating a worktree again\<close>

lemma createWorktree_steps:
  assumes "sh os s [''mkdir'', ''-p'', dirname (join [worktreeBase, name])] = (p0, s1)"
    and "exitCode p0 = 0"
  shows "createWorktree os s repoRoot worktreeBase name baseBranch =
           (case quiet os
                   (if existsSync os s1 (join [worktreeBase, name])
                    then removeWorktree os s1 repoRoot (join [worktreeBase, name]) (''bytree/'' @ name)
                    else s1)
                   [''git'', ''-C'', repoRoot, ''worktree'', ''add'', ''-b'', ''bytree/'' @ name,
                    join [worktreeBase, name], baseBranch] of
              (Inl e, s4) \<Rightarrow> (Inl e, s4)
            | (Inr _, s4) \<Rightarrow>
                (Inr \<lparr>path = join [worktreeBase, name], branch = ''bytree/'' @ name\<rparr>, s4))"
  using assms
  by (simp add: createWorktree_def removeWorktree_def quiet_cases Let_def del: append.simps)

lemma repo_mkdir:
  "sh repository r [''mkdir'', ''-p'', d] = (exited 0, r\<lparr>paths := d # paths r\<rparr>)"
  by (simp add: repository_def)

lemma repo_exists: "existsSync repository r p \<longleftrightarrow> p \<in> set (paths r)"
  by (simp add: repository_def)

lemma repo_remove:
  "sh repository r [''git'', ''-C'', repoRoot, ''worktree'', ''remove'', p, ''--force''] =
     (if p \<in> fst ` set (linked r) \<and> p \<in> set (paths r)
      then (exited 0, r\<lparr>paths := removeAll p (paths r),
                          linked := filter (\<lambda>w. fst w \<noteq> p) (linked r)\<rparr>)
      else (exited 128, r))"
  by (simp add: repository_def)

lemma repo_branch_D:
  "sh repository r [''git'', ''-C'', repoRoot, ''branch'', ''-D'', b] =
     (if b \<in> set (heads r) \<and> b \<notin> snd ` set (linked r)
      then (exited 0, r\<lparr>heads := removeAll b (heads r)\<rparr>)
      else (exited 1, r))"
  by (simp add: repository_def)

lemma repo_add:
  "sh repository r [''git'', ''-C'', repoRoot, ''worktree'', ''add'', ''-b'', b, p, base] =
     (if b \<notin> set (heads r) \<and> b \<notin> snd ` set (linked r)
         \<and> p \<notin> set (paths r) \<and> p \<notin> fst ` set (linked r)
         \<and> (base \<in> set (heads r) \<or> base \<in> set (revisions r))
      then (exited 0, r\<lparr>paths := p # paths r, linked := linked r @ [(p, b)],
                          heads := heads r @ [b]\<rparr>)
      else (exited 128, r))"
  by (simp add: repository_def)

lemma repo_add_ok:
  assumes "quiet repository r [''git'', ''-C'', repoRoot, ''worktree'', ''add'', ''-b'', b, p, base]
             = (Inr x, r')"
  shows "b \<notin> set (heads r) \<and> b \<notin> snd ` set (linked r)
         \<and> p \<notin> set (paths r) \<and> p \<notin> fst ` set (linked r)
         \<and> (base \<in> set (heads r) \<or> base \<in> set (revisions r))
         \<and> r' = r\<lparr>paths := p # paths r, linked := linked r @ [(p, b)], heads := heads r @ [b]\<rparr>"
  using assms
  by (simp add: quiet_def repo_add exited_def split: if_splits)

lemma createWorktree_repo_ok:
  assumes "createWorktree repository r repoRoot worktreeBase name baseBranch = (Inr w, r1)"
  shows "\<exists>r3 x. quiet repository r3
                  [''git'', ''-C'', repoRoot, ''worktree'', ''add'', ''-b'', ''bytree/'' @ name,
                   join [worktreeBase, name], baseBranch] = (Inr x, r1)
               \<and> w = \<lparr>path = join [worktreeBase, name], branch = ''bytree/'' @ name\<rparr>"
proof -
  have m: "exitCode (exited 0) = 0" by (simp add: exited_def)
  have mk: "sh repository r [''mkdir'', ''-p'', dirname (join [worktreeBase, name])]
              = (exited 0, r\<lparr>paths := dirname (join [worktreeBase, name]) # paths r\<rparr>)"
    by (rule repo_mkdir)
  note st = createWorktree_steps [OF mk m, where repoRoot = repoRoot and baseBranch = baseBranch]
  let ?r3 = "if existsSync repository (r\<lparr>paths := dirname (join [worktreeBase, name]) # paths r\<rparr>)
                   (join [worktreeBase, name])
             then removeWorktree repository
                    (r\<lparr>paths := dirname (join [worktreeBase, name]) # paths r\<rparr>)
                    repoRoot (join [worktreeBase, name]) (''bytree/'' @ name)
             else r\<lparr>paths := dirname (join [worktreeBase, name]) # paths r\<rparr>"
  let ?add = "[''git'', ''-C'', repoRoot, ''worktree'', ''add'', ''-b'', ''bytree/'' @ name,
               join [worktreeBase, name], baseBranch]"
  obtain res r4 where q: "quiet repository ?r3 ?add = (res, r4)"
    by (cases "quiet repository ?r3 ?add")
  have e: "(case quiet repository ?r3 ?add of
              (Inl e, s4) \<Rightarrow> (Inl e, s4)
            | (Inr _, s4) \<Rightarrow>
                (Inr \<lparr>path = join [worktreeBase, name], branch = ''bytree/'' @ name\<rparr>, s4))
           = (Inr w, r1)"
    unfolding st [symmetric] by (rule assms)
  show ?thesis
  proof (cases res)
    case (Inl err)
    with e q show ?thesis by simp
  next
    case (Inr x)
    with e q have "r4 = r1" and "w = \<lparr>path = join [worktreeBase, name], branch = ''bytree/'' @ name\<rparr>"
      by simp_all
    with q Inr show ?thesis by blast
  qed
qed

lemma createWorktree_repo_again:
  assumes "b \<notin> set (heads r3)" "b \<notin> snd ` set (linked r3)"
    "p \<notin> set (paths r3)" "p \<notin> fst ` set (linked r3)"
    "base \<in> set (heads r3) \<or> base \<in> set (revisions r3)"
    and r1: "r1 = r3\<lparr>paths := p # paths r3, linked := linked r3 @ [(p, b)], heads := heads r3 @ [b]\<rparr>"
    and p: "p = join [worktreeBase, name]" and b: "b = ''bytree/'' @ name"
  shows "createWorktree repository r1 repoRoot worktreeBase name base =
           (Inr \<lparr>path = p, branch = b\<rparr>,
            r1\<lparr>paths := p # removeAll p [dirname p] @ paths r3\<rparr>)"
proof -
  have m: "exitCode (exited 0) = 0" by (simp add: exited_def)
  have mk: "sh repository r1 [''mkdir'', ''-p'', dirname (join [worktreeBase, name])]
              = (exited 0, r1\<lparr>paths := dirname (join [worktreeBase, name]) # paths r1\<rparr>)"
    by (rule repo_mkdir)
  note st = createWorktree_steps [OF mk m, where repoRoot = repoRoot and baseBranch = base]
  have f: "filter (\<lambda>w. fst w \<noteq> p) (linked r3) = linked r3"
    using assms(4) by (auto simp: filter_id_conv)
  have ex: "existsSync repository (r1\<lparr>paths := dirname p # paths r1\<rparr>) p"
    by (simp add: repo_exists r1)
  have rm: "removeWorktree repository (r1\<lparr>paths := dirname p # paths r1\<rparr>) repoRoot p b
              = r3\<lparr>paths := removeAll p [dirname p] @ paths r3\<rparr>"
    using assms(1-4)
    by (simp add: removeWorktree_def quiet_nothrow_def repo_remove repo_branch_D r1 f)
  have add: "quiet repository (r3\<lparr>paths := removeAll p [dirname p] @ paths r3\<rparr>)
               [''git'', ''-C'', repoRoot, ''worktree'', ''add'', ''-b'', b, p, base]
             = (Inr (exited 0), r1\<lparr>paths := p # removeAll p [dirname p] @ paths r3\<rparr>)"
    using assms(1-5)
    by (simp add: quiet_def repo_add exited_def r1)
  show ?thesis
    using st ex rm add unfolding p [symmetric] b [symmetric] by simp
qed

text \<open>
  C1, amended. After making the parent directory, \<open>createWorktree\<close> cleans up only
  when something exists at the target path: then it runs the two commands of
  \<open>removeWorktree\<close>, the forced removal of the worktree at the path and the forced
  deletion of the branch \<open>bytree/<name>\<close>, whatever their outcome; otherwise it runs
  neither. Then it creates the worktree. On the repository machine, a second run after a
  run that succeeded succeeds as well and returns the same path and branch; after it the
  linked worktrees and the branches are what they were, with one worktree at the path
  and one branch of the name.
\<close>

theorem createWorktree_recreates_existing:
  assumes "sh os s [''mkdir'', ''-p'', dirname (join [worktreeBase, name])] = (p0, s1)"
    and "exitCode p0 = 0"
  shows "createWorktree os s repoRoot worktreeBase name baseBranch =
           (case quiet os
                   (if existsSync os s1 (join [worktreeBase, name])
                    then removeWorktree os s1 repoRoot (join [worktreeBase, name]) (''bytree/'' @ name)
                    else s1)
                   [''git'', ''-C'', repoRoot, ''worktree'', ''add'', ''-b'', ''bytree/'' @ name,
                    join [worktreeBase, name], baseBranch] of
              (Inl e, s4) \<Rightarrow> (Inl e, s4)
            | (Inr _, s4) \<Rightarrow>
                (Inr \<lparr>path = join [worktreeBase, name], branch = ''bytree/'' @ name\<rparr>, s4))
         \<and> (\<forall>r w r1.
               createWorktree repository r repoRoot worktreeBase name baseBranch = (Inr w, r1) \<longrightarrow>
               (\<exists>r2. createWorktree repository r1 repoRoot worktreeBase name baseBranch = (Inr w, r2)
                  \<and> w = \<lparr>path = join [worktreeBase, name], branch = ''bytree/'' @ name\<rparr>
                  \<and> filter (\<lambda>l. fst l = path w) (linked r2) = [(path w, branch w)]
                  \<and> count_list (heads r2) (branch w) = 1
                  \<and> path w \<in> set (paths r2)
                  \<and> linked r2 = linked r1 \<and> heads r2 = heads r1))"
proof (intro conjI allI impI)
  show "createWorktree os s repoRoot worktreeBase name baseBranch =
           (case quiet os
                   (if existsSync os s1 (join [worktreeBase, name])
                    then removeWorktree os s1 repoRoot (join [worktreeBase, name]) (''bytree/'' @ name)
                    else s1)
                   [''git'', ''-C'', repoRoot, ''worktree'', ''add'', ''-b'', ''bytree/'' @ name,
                    join [worktreeBase, name], baseBranch] of
              (Inl e, s4) \<Rightarrow> (Inl e, s4)
            | (Inr _, s4) \<Rightarrow>
                (Inr \<lparr>path = join [worktreeBase, name], branch = ''bytree/'' @ name\<rparr>, s4))"
    by (rule createWorktree_steps [OF assms])
next
  fix r w r1
  assume first: "createWorktree repository r repoRoot worktreeBase name baseBranch = (Inr w, r1)"
  define p where "p = join [worktreeBase, name]"
  define b where "b = ''bytree/'' @ name"
  from createWorktree_repo_ok [OF first] obtain r3 x where
    q: "quiet repository r3 [''git'', ''-C'', repoRoot, ''worktree'', ''add'', ''-b'', b, p, baseBranch]
          = (Inr x, r1)" and
    w: "w = \<lparr>path = p, branch = b\<rparr>"
    unfolding p_def b_def by blast
  note ok = repo_add_ok [OF q]
  have c1: "b \<notin> set (heads r3)" and c2: "b \<notin> snd ` set (linked r3)"
    and c3: "p \<notin> set (paths r3)" and c4: "p \<notin> fst ` set (linked r3)"
    and c5: "baseBranch \<in> set (heads r3) \<or> baseBranch \<in> set (revisions r3)"
    and r1: "r1 = r3\<lparr>paths := p # paths r3, linked := linked r3 @ [(p, b)], heads := heads r3 @ [b]\<rparr>"
    using ok by blast+
  define r2 where "r2 = r1\<lparr>paths := p # removeAll p [dirname p] @ paths r3\<rparr>"
  have again: "createWorktree repository r1 repoRoot worktreeBase name baseBranch = (Inr w, r2)"
    unfolding w r2_def
    by (rule createWorktree_repo_again [OF c1 c2 c3 c4 c5 r1 p_def b_def])
  have one: "filter (\<lambda>l. fst l = p) (linked r3) = []"
    using c4 by (auto simp: filter_empty_conv)
  have cnt: "count_list (heads r3) b = 0"
    using c1 by (simp add: count_list_0_iff)
  have wb: "w = \<lparr>path = join [worktreeBase, name], branch = ''bytree/'' @ name\<rparr>"
    using w unfolding p_def b_def .
  have k1: "filter (\<lambda>l. fst l = path w) (linked r2) = [(path w, branch w)]"
    using one by (simp add: w r2_def r1)
  have k2: "count_list (heads r2) (branch w) = 1"
    using cnt by (simp add: w r2_def r1)
  have k3: "path w \<in> set (paths r2)"
    by (simp add: w r2_def)
  have k4: "linked r2 = linked r1" and k5: "heads r2 = heads r1"
    by (simp_all add: r2_def)
  show "\<exists>r2. createWorktree repository r1 repoRoot worktreeBase name baseBranch = (Inr w, r2)
        \<and> w = \<lparr>path = join [worktreeBase, name], branch = ''bytree/'' @ name\<rparr>
        \<and> filter (\<lambda>l. fst l = path w) (linked r2) = [(path w, branch w)]
        \<and> count_list (heads r2) (branch w) = 1
        \<and> path w \<in> set (paths r2)
        \<and> linked r2 = linked r1 \<and> heads r2 = heads r1"
    using again wb k1 k2 k3 k4 k5 by (intro exI [of _ r2] conjI)
qed

lemma join_bytree_x:
  "join [''/repo-bytree'', ''x''] = ''/repo-bytree/x''"
  "dirname ''/repo-bytree/x'' = ''/repo-bytree''"
  by (simp_all add: join_def normalize_def dirname_def Let_def)

theorem createWorktree_recreates_existing_witness:
  "createWorktree repository cleanRepo ''/repo'' ''/repo-bytree'' ''x'' ''origin/main''
     = (Inr \<lparr>path = ''/repo-bytree/x'', branch = ''bytree/x''\<rparr>,
        \<lparr>paths = [''/repo-bytree/x'', ''/repo-bytree'', ''/repo''],
         linked = [(''/repo-bytree/x'', ''bytree/x'')],
         heads = [''main'', ''bytree/x''], revisions = [''origin/main'']\<rparr>)
   \<and> (\<exists>r2. createWorktree repository
               \<lparr>paths = [''/repo-bytree/x'', ''/repo-bytree'', ''/repo''],
                linked = [(''/repo-bytree/x'', ''bytree/x'')],
                heads = [''main'', ''bytree/x''], revisions = [''origin/main'']\<rparr>
               ''/repo'' ''/repo-bytree'' ''x'' ''origin/main''
             = (Inr \<lparr>path = ''/repo-bytree/x'', branch = ''bytree/x''\<rparr>, r2)
           \<and> linked r2 = [(''/repo-bytree/x'', ''bytree/x'')]
           \<and> heads r2 = [''main'', ''bytree/x''])"
proof -
  have m: "exitCode (exited 0) = 0" by (simp add: exited_def)
  have mk: "sh repository cleanRepo [''mkdir'', ''-p'', dirname (join [''/repo-bytree'', ''x''])]
              = (exited 0, cleanRepo\<lparr>paths := dirname (join [''/repo-bytree'', ''x'']) # paths cleanRepo\<rparr>)"
    by (rule repo_mkdir)
  note t = createWorktree_recreates_existing
             [OF mk m, where repoRoot = "''/repo''" and baseBranch = "''origin/main''"]
  have first: "createWorktree repository cleanRepo ''/repo'' ''/repo-bytree'' ''x'' ''origin/main''
     = (Inr \<lparr>path = ''/repo-bytree/x'', branch = ''bytree/x''\<rparr>,
        \<lparr>paths = [''/repo-bytree/x'', ''/repo-bytree'', ''/repo''],
         linked = [(''/repo-bytree/x'', ''bytree/x'')],
         heads = [''main'', ''bytree/x''], revisions = [''origin/main'']\<rparr>)"
    using t [THEN conjunct1]
    by (simp add: join_bytree_x repo_exists repo_add quiet_def exited_def cleanRepo_def)
  from t [THEN conjunct2, THEN spec, THEN spec, THEN spec, THEN mp, OF first]
  obtain r2 where
    a: "createWorktree repository
               \<lparr>paths = [''/repo-bytree/x'', ''/repo-bytree'', ''/repo''],
                linked = [(''/repo-bytree/x'', ''bytree/x'')],
                heads = [''main'', ''bytree/x''], revisions = [''origin/main'']\<rparr>
               ''/repo'' ''/repo-bytree'' ''x'' ''origin/main''
             = (Inr \<lparr>path = ''/repo-bytree/x'', branch = ''bytree/x''\<rparr>, r2)" and
    b: "linked r2 = linked \<lparr>paths = [''/repo-bytree/x'', ''/repo-bytree'', ''/repo''],
                linked = [(''/repo-bytree/x'', ''bytree/x'')],
                heads = [''main'', ''bytree/x''], revisions = [''origin/main'']\<rparr>" and
    c: "heads r2 = heads \<lparr>paths = [''/repo-bytree/x'', ''/repo-bytree'', ''/repo''],
                linked = [(''/repo-bytree/x'', ''bytree/x'')],
                heads = [''main'', ''bytree/x''], revisions = [''origin/main'']\<rparr>"
    by (elim exE conjE)
  have b': "linked r2 = [(''/repo-bytree/x'', ''bytree/x'')]" using b by simp
  have c': "heads r2 = [''main'', ''bytree/x'']" using c by simp
  show ?thesis
    using first a b' c' by (intro conjI exI [of _ r2])
qed

theorem createWorktree_leftover_branch_counterexample:
  "createWorktree repository staleRepo ''/repo'' ''/repo-bytree'' ''x'' ''main''
     = (Inl (ShellError 128),
        \<lparr>paths = [''/repo-bytree'', ''/repo''], linked = [],
         heads = [''main'', ''bytree/x''], revisions = []\<rparr>)"
proof -
  have m: "exitCode (exited 0) = 0" by (simp add: exited_def)
  have mk: "sh repository staleRepo [''mkdir'', ''-p'', dirname (join [''/repo-bytree'', ''x''])]
              = (exited 0, staleRepo\<lparr>paths := dirname (join [''/repo-bytree'', ''x'']) # paths staleRepo\<rparr>)"
    by (rule repo_mkdir)
  show ?thesis
    using createWorktree_steps [OF mk m, where repoRoot = "''/repo''" and baseBranch = "''main''"]
    by (simp add: join_bytree_x repo_exists repo_add quiet_def exited_def staleRepo_def)
qed

end
